theory Spec2Isabelle
  imports Complex_Main "HOL-Library.Word"
begin


section \<open>JavaScript strings and bytes\<close>

text \<open>
  A JavaScript string is a sequence of UTF-16 code units and \<open>s.length\<close> counts code units.
  A \<open>Uint8Array\<close> is a sequence of bytes.  The function \<open>js\<close> writes an ASCII literal of the
  source as a JavaScript string.
\<close>

type_synonym jschar = "16 word"
type_synonym jsstring = "jschar list"
type_synonym byte = "8 word"

definition js :: "string \<Rightarrow> jsstring" where
  "js s = map (\<lambda>c. of_nat (of_char c)) s"

text \<open>\<open>s.slice(i, j)\<close> for non-negative \<open>i\<close> and \<open>j\<close>: both ends are clamped to the length.\<close>

definition slice :: "'a list \<Rightarrow> nat \<Rightarrow> nat \<Rightarrow> 'a list" where
  "slice s i j = drop i (take j s)"

text \<open>\<open>s.startsWith(p)\<close>.\<close>

definition startsWith :: "'a list \<Rightarrow> 'a list \<Rightarrow> bool" where
  "startsWith s p = (take (length p) s = p)"

text \<open>
  \<open>s.replace(p, r)\<close> with a string pattern: the first occurrence of \<open>p\<close> is replaced.
\<close>

fun replaceFirst :: "'a list \<Rightarrow> 'a list \<Rightarrow> 'a list \<Rightarrow> 'a list" where
  "replaceFirst p r [] = (if p = [] then r else [])"
| "replaceFirst p r (c # cs) =
     (if startsWith (c # cs) p then r @ drop (length p) (c # cs)
      else c # replaceFirst p r cs)"

text \<open>The character classes of the source's regular expressions, and ASCII lower-casing.\<close>

definition isUpper :: "jschar \<Rightarrow> bool" where
  "isUpper c = (0x41 \<le> c \<and> c \<le> 0x5A)"

definition isLower :: "jschar \<Rightarrow> bool" where
  "isLower c = (0x61 \<le> c \<and> c \<le> 0x7A)"

definition isDigit :: "jschar \<Rightarrow> bool" where
  "isDigit c = (0x30 \<le> c \<and> c \<le> 0x39)"

definition isIdentChar :: "jschar \<Rightarrow> bool" where
  "isIdentChar c = (isLower c \<or> isUpper c \<or> isDigit c \<or> c = 0x5F)"

definition asciiLower :: "jschar \<Rightarrow> jschar" where
  "asciiLower c = (if isUpper c then c + 32 else c)"

section \<open>JavaScript values\<close>

text \<open>
  A number is an IEEE double: a finite value (a real number here), NaN or an infinity.
  An object carries the identity of its reference: two objects with the same fields are
  different objects when their addresses differ, and \<open>Map\<close> keys compare by address.
  The fields are in the object's own key order.  \<open>JFunction\<close> is a function object, given
  by its name; the only one that occurs is the built-in \<open>Object\<close>.
\<close>

datatype jsnum = Num real | NaN | PosInfinity | NegInfinity

datatype json =
    JUndefined
  | JNull
  | JBool bool
  | JNum jsnum
  | JStr jsstring
  | JArr "json list"
  | JObj nat "(jsstring \<times> json) list"
  | JFunction jsstring

section \<open>Errors\<close>

datatype js_error =
    SqlError
  | InvalidCharacterError
  | RangeError
  | StreamError
  | CompressionFailed js_error
  | DecompressionFailed js_error
  | MissingChunks nat nat
  | FailedToDecompress

section \<open>Platform functions used by the chunk store\<close>

subsection \<open>\<open>btoa\<close> and \<open>atob\<close>\<close>

definition b64char :: "nat \<Rightarrow> jschar" where
  "b64char i = of_nat (if i < 26 then 65 + i else if i < 52 then 71 + i
                       else if i < 62 then i - 4 else if i = 62 then 43 else 47)"

definition b64val :: "jschar \<Rightarrow> nat option" where
  "b64val c = (let n = unat c in
     if 65 \<le> n \<and> n \<le> 90 then Some (n - 65)
     else if 97 \<le> n \<and> n \<le> 122 then Some (n - 71)
     else if 48 \<le> n \<and> n \<le> 57 then Some (n + 4)
     else if n = 43 then Some 62
     else if n = 47 then Some 63
     else None)"

fun b64enc :: "nat list \<Rightarrow> jsstring" where
  "b64enc (a # b # c # r) =
     [b64char (a div 4), b64char ((a mod 4) * 16 + b div 16),
      b64char ((b mod 16) * 4 + c div 64), b64char (c mod 64)] @ b64enc r"
| "b64enc [a, b] =
     [b64char (a div 4), b64char ((a mod 4) * 16 + b div 16), b64char ((b mod 16) * 4), 61]"
| "b64enc [a] = [b64char (a div 4), b64char ((a mod 4) * 16), 61, 61]"
| "b64enc [] = []"

text \<open>\<open>btoa\<close> throws when a code unit exceeds \<open>0xFF\<close>.\<close>

definition btoa :: "jsstring \<Rightarrow> js_error + jsstring" where
  "btoa s = (if \<exists>c \<in> set s. 255 < unat c then Inl InvalidCharacterError
             else Inr (b64enc (map unat s)))"

fun b64dec :: "nat list \<Rightarrow> nat list" where
  "b64dec (a # b # c # d # r) =
     [a * 4 + b div 16, (b mod 16) * 16 + c div 4, (c mod 4) * 64 + d] @ b64dec r"
| "b64dec [a, b, c] = [a * 4 + b div 16, (b mod 16) * 16 + c div 4]"
| "b64dec [a, b] = [a * 4 + b div 16]"
| "b64dec [a] = []"
| "b64dec [] = []"

definition isAsciiWhitespace :: "jschar \<Rightarrow> bool" where
  "isAsciiWhitespace c = (c = 9 \<or> c = 10 \<or> c = 12 \<or> c = 13 \<or> c = 32)"

definition stripPadding :: "jsstring \<Rightarrow> jsstring" where
  "stripPadding d =
     (if length d mod 4 = 0 \<and> d \<noteq> [] \<and> last d = 61 then
        (let d1 = butlast d in if d1 \<noteq> [] \<and> last d1 = 61 then butlast d1 else d1)
      else d)"

fun those_vals :: "jsstring \<Rightarrow> nat list option" where
  "those_vals [] = Some []"
| "those_vals (c # cs) =
     (case b64val c of None \<Rightarrow> None
      | Some v \<Rightarrow> (case those_vals cs of None \<Rightarrow> None | Some vs \<Rightarrow> Some (v # vs)))"

text \<open>
  \<open>atob\<close> is the forgiving base64 decoder: ASCII whitespace is removed, one or two padding
  characters are dropped when the length is a multiple of four, and a remaining length of
  1 modulo 4 or a character outside the alphabet throws.
\<close>

definition atob :: "jsstring \<Rightarrow> js_error + jsstring" where
  "atob s =
     (let d = stripPadding (filter (\<lambda>c. \<not> isAsciiWhitespace c) s) in
      if length d mod 4 = 1 then Inl InvalidCharacterError
      else (case those_vals d of
              None \<Rightarrow> Inl InvalidCharacterError
            | Some vs \<Rightarrow> Inr (map of_nat (b64dec vs))))"

subsection \<open>\<open>TextEncoder\<close> and \<open>TextDecoder\<close>\<close>

definition isHighSurrogate :: "jschar \<Rightarrow> bool" where
  "isHighSurrogate c = (0xD800 \<le> unat c \<and> unat c \<le> 0xDBFF)"

definition isLowSurrogate :: "jschar \<Rightarrow> bool" where
  "isLowSurrogate c = (0xDC00 \<le> unat c \<and> unat c \<le> 0xDFFF)"

text \<open>
  The code points of a string; an unpaired surrogate is replaced by U+FFFD, as
  \<open>TextEncoder\<close> does.
\<close>

fun codePoints :: "jsstring \<Rightarrow> nat list" where
  "codePoints [] = []"
| "codePoints [c] = (if isHighSurrogate c \<or> isLowSurrogate c then [0xFFFD] else [unat c])"
| "codePoints (c # d # cs) =
     (if isHighSurrogate c then
        (if isLowSurrogate d
         then (0x10000 + (unat c - 0xD800) * 0x400 + (unat d - 0xDC00)) # codePoints cs
         else 0xFFFD # codePoints (d # cs))
      else if isLowSurrogate c then 0xFFFD # codePoints (d # cs)
      else unat c # codePoints (d # cs))"

definition utf8Bytes :: "nat \<Rightarrow> nat list" where
  "utf8Bytes cp =
     (if cp < 0x80 then [cp]
      else if cp < 0x800 then [0xC0 + cp div 64, 0x80 + cp mod 64]
      else if cp < 0x10000 then [0xE0 + cp div 4096, 0x80 + (cp div 64) mod 64, 0x80 + cp mod 64]
      else [0xF0 + cp div 262144, 0x80 + (cp div 4096) mod 64,
            0x80 + (cp div 64) mod 64, 0x80 + cp mod 64])"

definition TextEncoder_encode :: "jsstring \<Rightarrow> byte list" where
  "TextEncoder_encode s = map of_nat (concat (map utf8Bytes (codePoints s)))"

text \<open>
  The UTF-8 decoder of the Encoding Standard: the code point being assembled, the bytes
  seen and needed, and the bounds of the next byte.  A malformed sequence yields U+FFFD
  and the offending byte is read again.
\<close>

datatype utf8_state = Idle | Pending nat nat nat nat nat

function utf8Decode :: "utf8_state \<Rightarrow> nat list \<Rightarrow> nat list" where
  "utf8Decode Idle [] = []"
| "utf8Decode (Pending cp seen needed lo hi) [] = [0xFFFD]"
| "utf8Decode Idle (b # bs) =
     (if b \<le> 0x7F then b # utf8Decode Idle bs
      else if 0xC2 \<le> b \<and> b \<le> 0xDF then utf8Decode (Pending (b mod 32) 0 1 0x80 0xBF) bs
      else if 0xE0 \<le> b \<and> b \<le> 0xEF then
        utf8Decode (Pending (b mod 16) 0 2 (if b = 0xE0 then 0xA0 else 0x80)
                      (if b = 0xED then 0x9F else 0xBF)) bs
      else if 0xF0 \<le> b \<and> b \<le> 0xF4 then
        utf8Decode (Pending (b mod 8) 0 3 (if b = 0xF0 then 0x90 else 0x80)
                      (if b = 0xF4 then 0x8F else 0xBF)) bs
      else 0xFFFD # utf8Decode Idle bs)"
| "utf8Decode (Pending cp seen needed lo hi) (b # bs) =
     (if b < lo \<or> hi < b then 0xFFFD # utf8Decode Idle (b # bs)
      else if seen + 1 \<noteq> needed
        then utf8Decode (Pending (cp * 64 + b mod 64) (seen + 1) needed 0x80 0xBF) bs
      else (cp * 64 + b mod 64) # utf8Decode Idle bs)"
  by pat_completeness auto
termination
  by (relation "measure (\<lambda>(st, bs). 2 * length bs + (case st of Idle \<Rightarrow> 0 | _ \<Rightarrow> 1))") auto

definition utf16Units :: "nat \<Rightarrow> jsstring" where
  "utf16Units cp =
     (if cp < 0x10000 then [of_nat cp]
      else [of_nat (0xD800 + (cp - 0x10000) div 0x400), of_nat (0xDC00 + (cp - 0x10000) mod 0x400)])"

text \<open>
  \<open>new TextDecoder().decode(bytes)\<close>: the decoder is built without \<open>ignoreBOM\<close>, so a
  leading byte order mark \<open>EF BB BF\<close> is dropped from the output.
\<close>

definition stripBOM :: "nat list \<Rightarrow> nat list" where
  "stripBOM bs = (if take 3 bs = [0xEF, 0xBB, 0xBF] then drop 3 bs else bs)"

definition TextDecoder_decode :: "byte list \<Rightarrow> jsstring" where
  "TextDecoder_decode bytes = concat (map utf16Units (utf8Decode Idle (stripBOM (map unat bytes))))"

subsection \<open>The runtime\<close>

text \<open>
  What the chunk store asks of its runtime: the gzip \<open>CompressionStream\<close> and
  \<open>DecompressionStream\<close> (either may be undefined; a decompression stream rejects data that
  is not a gzip stream), the number of arguments a call may spread
  (\<open>String.fromCharCode(...combined)\<close> throws a \<open>RangeError\<close> beyond it), and whether
  \<open>cursor.one()\<close> throws on an empty result or returns nothing.
\<close>

record platform =
  CompressionStream :: "(byte list \<Rightarrow> byte list) option"
  DecompressionStream :: "(byte list \<Rightarrow> byte list option) option"
  argumentLimit :: nat
  oneThrowsOnEmpty :: bool
  JSON_parse :: "jsstring \<Rightarrow> json option"
  toLowerCase :: "jsstring \<Rightarrow> jsstring"

definition fromCharCodeSpread :: "platform \<Rightarrow> byte list \<Rightarrow> js_error + jsstring" where
  "fromCharCodeSpread pf combined =
     (if argumentLimit pf < length combined then Inl RangeError
      else Inr (map ucast combined))"

section \<open>The chunk store (ChunkingEngine)\<close>

datatype content_type = CT_json | CT_text

record ChunkMetadata =
  contentId :: jsstring
  totalChunks :: nat
  originalSize :: nat
  contentType :: content_type
  compressed :: bool
  encoding :: "jsstring option"

record ChunkRecord =
  content_id :: jsstring
  chunk_index :: nat
  chunk_data :: jsstring
  chunk_size :: nat

text \<open>A row of table \<open>chunk_metadata\<close>: \<open>compressed\<close> is stored as 0 or 1.\<close>

record MetadataRow =
  row_content_id :: jsstring
  row_total_chunks :: nat
  row_original_size :: nat
  row_content_type :: content_type
  row_compressed :: nat
  row_encoding :: "jsstring option"

text \<open>
  The two tables of the store; \<open>None\<close> is a table that has not been created.  The
  \<open>id\<close> and \<open>created_at\<close> columns are never read by the engine and are left out.
\<close>

record chunk_db =
  content_chunks :: "ChunkRecord list option"
  chunk_metadata :: "MetadataRow list option"

definition CHUNK_SIZE_THRESHOLD :: nat where "CHUNK_SIZE_THRESHOLD = 32 * 1024"
definition CHUNK_SIZE :: nat where "CHUNK_SIZE = 16 * 1024"
definition ENABLE_COMPRESSION :: bool where "ENABLE_COMPRESSION = True"

definition shouldChunk :: "jsstring \<Rightarrow> bool" where
  "shouldChunk content = (CHUNK_SIZE_THRESHOLD < length content)"

definition shouldCompress :: "jsstring \<Rightarrow> bool" where
  "shouldCompress content = (8192 < length content)"

text \<open>\<open>'chunk_' + crypto.randomUUID().replace(/-/g, '')\<close>, the UUID being an input.\<close>

definition generateContentId :: "jsstring \<Rightarrow> jsstring" where
  "generateContentId uuid = js ''chunk_'' @ filter (\<lambda>c. c \<noteq> 45) uuid"

definition compress :: "platform \<Rightarrow> jsstring \<Rightarrow> js_error + jsstring" where
  "compress pf content =
     (let uint8Array = TextEncoder_encode content in
      case CompressionStream pf of
        Some gzip \<Rightarrow>
          (let combined = gzip uint8Array in
           case fromCharCodeSpread pf combined of
             Inl e \<Rightarrow> Inl (CompressionFailed e)
           | Inr binary \<Rightarrow>
               (case btoa binary of Inl e \<Rightarrow> Inl (CompressionFailed e) | Inr r \<Rightarrow> Inr r))
      | None \<Rightarrow>
          (case btoa content of Inl e \<Rightarrow> Inl (CompressionFailed e) | Inr r \<Rightarrow> Inr r))"

definition decompress :: "platform \<Rightarrow> jsstring \<Rightarrow> js_error + jsstring" where
  "decompress pf compressedContent =
     (case DecompressionStream pf of
        Some gunzip \<Rightarrow>
          (case atob compressedContent of
             Inl e \<Rightarrow> Inl (DecompressionFailed e)
           | Inr binary \<Rightarrow>
               (let compressedData = map ucast binary in
                case gunzip compressedData of
                  None \<Rightarrow> Inl (DecompressionFailed StreamError)
                | Some combined \<Rightarrow> Inr (TextDecoder_decode combined)))
      | None \<Rightarrow>
          (case atob compressedContent of Inl e \<Rightarrow> Inl (DecompressionFailed e) | Inr r \<Rightarrow> Inr r))"

text \<open>The loop \<open>for (i = 0; i < content.length; i += CHUNK_SIZE)\<close> of \<open>splitIntoChunks\<close>.\<close>

function splitLoop :: "jsstring \<Rightarrow> nat \<Rightarrow> jsstring list \<Rightarrow> jsstring list" where
  "splitLoop content i chunks =
     (if i < length content
      then splitLoop content (i + CHUNK_SIZE) (chunks @ [slice content i (i + CHUNK_SIZE)])
      else chunks)"
  by pat_completeness auto
termination
  by (relation "measure (\<lambda>(content, i, chunks). length content - i)")
     (auto simp: CHUNK_SIZE_def)

declare splitLoop.simps [simp del]

definition splitIntoChunks :: "jsstring \<Rightarrow> jsstring list" where
  "splitIntoChunks content = splitLoop content 0 []"

definition ensureChunksTable :: "chunk_db \<Rightarrow> chunk_db" where
  "ensureChunksTable db =
     db\<lparr>content_chunks := Some (case content_chunks db of None \<Rightarrow> [] | Some rows \<Rightarrow> rows),
        chunk_metadata := Some (case chunk_metadata db of None \<Rightarrow> [] | Some rows \<Rightarrow> rows)\<rparr>"

text \<open>
  \<open>INSERT INTO content_chunks\<close>: fails when the table is missing or the row breaks
  \<open>UNIQUE(content_id, chunk_index)\<close>.
\<close>

definition insertChunk :: "ChunkRecord \<Rightarrow> chunk_db \<Rightarrow> (js_error + unit) \<times> chunk_db" where
  "insertChunk chunk db =
     (case content_chunks db of
        None \<Rightarrow> (Inl SqlError, db)
      | Some rows \<Rightarrow>
          if \<exists>r \<in> set rows. content_id r = content_id chunk \<and> chunk_index r = chunk_index chunk
          then (Inl SqlError, db)
          else (Inr (), db\<lparr>content_chunks := Some (rows @ [chunk])\<rparr>))"

text \<open>\<open>INSERT INTO chunk_metadata\<close>: \<open>content_id\<close> is the primary key.\<close>

definition storeMetadata :: "ChunkMetadata \<Rightarrow> chunk_db \<Rightarrow> (js_error + unit) \<times> chunk_db" where
  "storeMetadata metadata db =
     (case chunk_metadata db of
        None \<Rightarrow> (Inl SqlError, db)
      | Some rows \<Rightarrow>
          if \<exists>r \<in> set rows. row_content_id r = contentId metadata then (Inl SqlError, db)
          else (Inr (), db\<lparr>chunk_metadata := Some (rows @
                  [\<lparr>row_content_id = contentId metadata,
                    row_total_chunks = totalChunks metadata,
                    row_original_size = originalSize metadata,
                    row_content_type = contentType metadata,
                    row_compressed = (if compressed metadata then 1 else 0),
                    row_encoding = encoding metadata\<rparr>])\<rparr>))"

text \<open>The loop of \<open>storeChunkedContent\<close> that writes chunk \<open>i\<close>, \<open>i + 1\<close>, ...\<close>

fun storeChunks :: "jsstring \<Rightarrow> jsstring list \<Rightarrow> nat \<Rightarrow> chunk_db \<Rightarrow> (js_error + unit) \<times> chunk_db" where
  "storeChunks cid [] i db = (Inr (), db)"
| "storeChunks cid (c # cs) i db =
     (case insertChunk \<lparr>content_id = cid, chunk_index = i, chunk_data = c, chunk_size = length c\<rparr> db of
        (Inl e, db') \<Rightarrow> (Inl e, db')
      | (Inr u, db') \<Rightarrow> storeChunks cid cs (i + 1) db')"

text \<open>The content that is split: compressed when compression is attempted and succeeds.\<close>

definition processContent :: "platform \<Rightarrow> jsstring \<Rightarrow> jsstring \<times> bool" where
  "processContent pf content =
     (if ENABLE_COMPRESSION \<and> shouldCompress content then
        (case compress pf content of
           Inr processedContent \<Rightarrow> (processedContent, True)
         | Inl e \<Rightarrow> (content, False))
      else (content, False))"

definition storeChunkedContent ::
  "platform \<Rightarrow> jsstring \<Rightarrow> jsstring \<Rightarrow> content_type \<Rightarrow> chunk_db \<Rightarrow> (js_error + ChunkMetadata) \<times> chunk_db" where
  "storeChunkedContent pf uuid content ctype db =
     (let cid = generateContentId uuid;
          (processedContent, isCompressed) = processContent pf content;
          db1 = ensureChunksTable db;
          chunks = splitIntoChunks processedContent
      in case storeChunks cid chunks 0 db1 of
           (Inl e, db2) \<Rightarrow> (Inl e, db2)
         | (Inr u, db2) \<Rightarrow>
             (let metadata = \<lparr>contentId = cid, totalChunks = length chunks,
                    originalSize = length content, contentType = ctype,
                    compressed = isCompressed,
                    encoding = (if isCompressed then Some (js ''gzip'') else None)\<rparr>
              in case storeMetadata metadata db2 of
                   (Inl e, db3) \<Rightarrow> (Inl e, db3)
                 | (Inr u', db3) \<Rightarrow> (Inr metadata, db3)))"

text \<open>\<open>SELECT * FROM chunk_metadata WHERE content_id = ?\<close> followed by \<open>.one()\<close>.\<close>

definition getMetadata :: "platform \<Rightarrow> jsstring \<Rightarrow> chunk_db \<Rightarrow> js_error + ChunkMetadata option" where
  "getMetadata pf cid db =
     (case chunk_metadata db of
        None \<Rightarrow> Inl SqlError
      | Some rows \<Rightarrow>
          (case filter (\<lambda>r. row_content_id r = cid) rows of
             [] \<Rightarrow> (if oneThrowsOnEmpty pf then Inl SqlError else Inr None)
           | [r] \<Rightarrow> Inr (Some \<lparr>contentId = row_content_id r, totalChunks = row_total_chunks r,
                     originalSize = row_original_size r, contentType = row_content_type r,
                     compressed = (row_compressed r \<noteq> 0), encoding = row_encoding r\<rparr>)
           | _ \<Rightarrow> Inl SqlError))"

text \<open>\<open>SELECT chunk_data ... WHERE content_id = ? ORDER BY chunk_index ASC\<close>.\<close>

definition getChunks :: "jsstring \<Rightarrow> nat \<Rightarrow> chunk_db \<Rightarrow> js_error + jsstring list" where
  "getChunks cid expectedCount db =
     (case content_chunks db of
        None \<Rightarrow> Inl SqlError
      | Some rows \<Rightarrow>
          Inr (map chunk_data (sort_key chunk_index (filter (\<lambda>r. content_id r = cid) rows))))"

text \<open>The body of the \<open>try\<close> block of \<open>retrieveChunkedContent\<close>: \<open>Inl\<close> is a thrown error.\<close>

definition retrieveTry :: "platform \<Rightarrow> jsstring \<Rightarrow> chunk_db \<Rightarrow> js_error + jsstring option" where
  "retrieveTry pf cid db =
     (case getMetadata pf cid db of
        Inl e \<Rightarrow> Inl e
      | Inr None \<Rightarrow> Inr None
      | Inr (Some metadata) \<Rightarrow>
          (case getChunks cid (totalChunks metadata) db of
             Inl e \<Rightarrow> Inl e
           | Inr chunks \<Rightarrow>
               if length chunks \<noteq> totalChunks metadata
               then Inl (MissingChunks (totalChunks metadata) (length chunks))
               else (let reassembled = concat chunks in
                     if compressed metadata then
                       (case decompress pf reassembled of
                          Inl e \<Rightarrow> Inl FailedToDecompress
                        | Inr s \<Rightarrow> Inr (Some s))
                     else Inr (Some reassembled))))"

text \<open>
  \<open>retrieveChunkedContent\<close>: the \<open>catch\<close> clause around the whole body logs the error and
  returns \<open>null\<close>.  The result is a sum so that callers' own \<open>catch\<close> clauses can be
  modelled; this function never produces \<open>Inl\<close>.
\<close>

definition retrieveChunkedContent :: "platform \<Rightarrow> jsstring \<Rightarrow> chunk_db \<Rightarrow> js_error + jsstring option" where
  "retrieveChunkedContent pf cid db =
     (case retrieveTry pf cid db of Inl e \<Rightarrow> Inr None | Inr r \<Rightarrow> Inr r)"

definition createContentReference :: "ChunkMetadata \<Rightarrow> jsstring" where
  "createContentReference metadata = js ''__CHUNKED__:'' @ contentId metadata"

definition extractContentId :: "jsstring \<Rightarrow> jsstring" where
  "extractContentId reference = replaceFirst (js ''__CHUNKED__:'') [] reference"

text \<open>\<open>isContentReference\<close>: a string that starts with \<open>__CHUNKED__:\<close>.\<close>

definition isContentReference :: "json \<Rightarrow> bool" where
  "isContentReference v = (case v of JStr s \<Rightarrow> startsWith s (js ''__CHUNKED__:'') | _ \<Rightarrow> False)"

section \<open>Reconstitution of query results (JsonToSqlDO)\<close>

text \<open>The decimal digits of a number, for the texts of error messages.\<close>

fun decimal :: "nat \<Rightarrow> jsstring" where
  "decimal n = (if n < 10 then [of_nat (48 + n)] else decimal (n div 10) @ [of_nat (48 + n mod 10)])"

declare decimal.simps [simp del]

text \<open>The text of \<open>`${error}`\<close> for the errors the chunk store throws itself.\<close>

fun errorText :: "js_error \<Rightarrow> jsstring" where
  "errorText (MissingChunks expected found) =
     js ''Error: Missing chunks: expected '' @ decimal expected @ js '', found '' @ decimal found"
| "errorText FailedToDecompress = js ''Error: Failed to decompress content''"
| "errorText (CompressionFailed e) = js ''Error: Compression failed: '' @ errorText e"
| "errorText (DecompressionFailed e) = js ''Error: Decompression failed: '' @ errorText e"
| "errorText SqlError = js ''Error: SQL error''"
| "errorText InvalidCharacterError = js ''InvalidCharacterError''"
| "errorText RangeError = js ''RangeError''"
| "errorText StreamError = js ''TypeError''"

text \<open>
  One cell of \<open>resolveChunkedContentInResults\<close>.  The \<open>catch\<close> clause of the source is the
  \<open>Inl\<close> branch.
\<close>

definition resolveCell :: "platform \<Rightarrow> chunk_db \<Rightarrow> json \<Rightarrow> json" where
  "resolveCell pf db v =
     (if isContentReference v then
        (case v of
           JStr reference \<Rightarrow>
             (let cid = extractContentId reference in
              case retrieveChunkedContent pf cid db of
                Inl error \<Rightarrow> JStr (js ''[CHUNKED_CONTENT_ERROR:'' @ errorText error @ js '']'')
              | Inr None \<Rightarrow> JStr (js ''[CHUNKED_CONTENT_NOT_FOUND:'' @ cid @ js '']'')
              | Inr (Some resolvedContent) \<Rightarrow>
                  (case JSON_parse pf resolvedContent of
                     Some parsed \<Rightarrow> parsed
                   | None \<Rightarrow> JStr resolvedContent))
         | _ \<Rightarrow> v)
      else v)"

definition resolveChunkedContentInResults ::
  "platform \<Rightarrow> chunk_db \<Rightarrow> (jsstring \<times> json) list list \<Rightarrow> (jsstring \<times> json) list list" where
  "resolveChunkedContentInResults pf db results =
     map (\<lambda>row. map (\<lambda>(key, v). (key, resolveCell pf db v)) row) results"


text \<open>The sextets of a byte sequence and the number of padding characters, for the proofs about \<open>btoa\<close>.\<close>

fun sextets :: "nat list \<Rightarrow> nat list" where
  "sextets (a # b # c # r) =
     [a div 4, (a mod 4) * 16 + b div 16, (b mod 16) * 4 + c div 64, c mod 64] @ sextets r"
| "sextets [a, b] = [a div 4, (a mod 4) * 16 + b div 16, (b mod 16) * 4]"
| "sextets [a] = [a div 4, (a mod 4) * 16]"
| "sextets [] = []"

definition padLen :: "nat list \<Rightarrow> nat" where
  "padLen bs = (if length bs mod 3 = 0 then 0 else 3 - length bs mod 3)"


text \<open>Auxiliary notions for the statements about the chunk store.\<close>

definition chunkCount :: "nat \<Rightarrow> nat" where
  "chunkCount n = (n + (CHUNK_SIZE - 1)) div CHUNK_SIZE"

definition mkChunk :: "jsstring \<Rightarrow> nat \<Rightarrow> jsstring \<Rightarrow> ChunkRecord" where
  "mkChunk cid i c = \<lparr>content_id = cid, chunk_index = i, chunk_data = c, chunk_size = length c\<rparr>"

definition pf0 :: platform where
  "pf0 = \<lparr>CompressionStream = None, DecompressionStream = None, argumentLimit = 65536, oneThrowsOnEmpty = True,
           JSON_parse = (\<lambda>s. None), toLowerCase = map asciiLower\<rparr>"

definition db0 :: chunk_db where
  "db0 = \<lparr>content_chunks = None, chunk_metadata = None\<rparr>"

definition db7 :: chunk_db where
  "db7 = \<lparr>content_chunks = Some [\<lparr>content_id = js ''chunk_x'', chunk_index = 0,
                                  chunk_data = js ''abc'', chunk_size = 3\<rparr>],
           chunk_metadata = Some [\<lparr>row_content_id = js ''chunk_x'', row_total_chunks = 2,
                                   row_original_size = 6, row_content_type = CT_text,
                                   row_compressed = 0, row_encoding = None\<rparr>]\<rparr>"

text \<open>A text of 32769 code units that starts with U+FEFF.\<close>

definition bomText :: jsstring where
  "bomText = 0xFEFF # replicate 32768 97"

text \<open>
  A lossless stand-in for the gzip streams, used where a concrete runtime is needed: it
  prefixes the gzip magic bytes, and the inverse rejects data without them.
\<close>

definition gzToy :: "byte list \<Rightarrow> byte list" where
  "gzToy b = 0x1F # 0x8B # b"

fun gunzToy :: "byte list \<Rightarrow> byte list option" where
  "gunzToy (m1 # m2 # b) = (if m1 = 0x1F \<and> m2 = 0x8B then Some b else None)"
| "gunzToy _ = None"

definition pf1 :: platform where
  "pf1 = \<lparr>CompressionStream = Some gzToy, DecompressionStream = Some gunzToy,
           argumentLimit = 65536, oneThrowsOnEmpty = True, JSON_parse = (\<lambda>s. None), toLowerCase = map asciiLower\<rparr>"

section \<open>Identifier normalisers\<close>

text \<open>\<open>.replace(/[^a-zA-Z0-9_]/g, '_')\<close>\<close>

definition replaceNonIdent :: "jsstring \<Rightarrow> jsstring" where
  "replaceNonIdent s = map (\<lambda>c. if isIdentChar c then c else 0x5F) s"

text \<open>\<open>.replace(/_{2,}/g, '_')\<close>: every run of two or more underscores becomes one.\<close>

fun collapseUnderscores :: "jsstring \<Rightarrow> jsstring" where
  "collapseUnderscores (c # d # cs) =
     (if c = 0x5F \<and> d = 0x5F then collapseUnderscores (d # cs)
      else c # collapseUnderscores (d # cs))"
| "collapseUnderscores cs = cs"

text \<open>
  \<open>.replace(/^_|_$/g, '')\<close>: an underscore at the start is removed, and then an underscore
  at the end of what is left.
\<close>

definition trimUnderscore :: "jsstring \<Rightarrow> jsstring" where
  "trimUnderscore s =
     (let s1 = (case s of c # cs \<Rightarrow> if c = 0x5F then cs else s | [] \<Rightarrow> []) in
      if s1 \<noteq> [] \<and> last s1 = 0x5F then butlast s1 else s1)"

text \<open>\<open>/^[0-9]/.test(s)\<close>\<close>

definition startsWithDigit :: "jsstring \<Rightarrow> bool" where
  "startsWithDigit s = (case s of c # cs \<Rightarrow> isDigit c | [] \<Rightarrow> False)"

text \<open>The three replacements that all normalisers share.\<close>

definition cleanName :: "jsstring \<Rightarrow> jsstring" where
  "cleanName s = trimUnderscore (collapseUnderscores (replaceNonIdent s))"

definition tableReservedWords :: "jsstring list" where
  "tableReservedWords = map js [''table'', ''index'', ''view'', ''column'', ''primary'', ''key'',
     ''foreign'', ''constraint'']"

text \<open>
  \<open>sanitizeTableName\<close>, the same text in \<open>SchemaInferenceEngine\<close> and \<open>DataInsertionEngine\<close>.
  The argument \<open>rnd\<close> is the value of \<open>Math.random().toString(36).substr(2, 9)\<close>, which the
  source draws when the name is not a non-empty string or nothing is left of it.
\<close>

definition sanitizeTableName :: "platform \<Rightarrow> jsstring \<Rightarrow> json \<Rightarrow> jsstring" where
  "sanitizeTableName pf rnd name =
     (case name of
        JStr s \<Rightarrow>
          if s = [] then js ''table_'' @ rnd
          else (let sanitized = toLowerCase pf (cleanName s);
                    sanitized1 = (if startsWithDigit sanitized then js ''table_'' @ sanitized
                                  else sanitized);
                    sanitized2 = (if sanitized1 = [] then js ''table_'' @ rnd else sanitized1)
                in if sanitized2 \<in> set tableReservedWords then sanitized2 @ js ''_table''
                   else sanitized2)
      | _ \<Rightarrow> js ''table_'' @ rnd)"

text \<open>\<open>.replace(/([A-Z])/g, '_$1')\<close>\<close>

definition underscoreBeforeUpper :: "jsstring \<Rightarrow> jsstring" where
  "underscoreBeforeUpper s = concat (map (\<lambda>c. if isUpper c then [0x5F, c] else [c]) s)"

text \<open>
  The lookup \<open>openTargetsTerms[snakeCase]\<close>.  The table is an object literal, so besides its
  own nine keys the lookup finds the properties it inherits from \<open>Object.prototype\<close>.  The
  key is lower case, made of letters, digits and inner underscores only, and the one
  inherited name of that form is \<open>constructor\<close>, whose value is the function \<open>Object\<close>.
\<close>

definition openTargetsTerms :: "(jsstring \<times> jsstring) list" where
  "openTargetsTerms =
     [(js ''ensemblid'', js ''ensembl_id''),
      (js ''efoid'', js ''efo_id''),
      (js ''chemblid'', js ''chembl_id''),
      (js ''approvedsymbol'', js ''approved_symbol''),
      (js ''approvedname'', js ''approved_name''),
      (js ''geneticconstraint'', js ''genetic_constraint''),
      (js ''mechanismsofaction'', js ''mechanisms_of_action''),
      (js ''therapeuticareas'', js ''therapeutic_areas''),
      (js ''pharmacovigilance'', js ''pharmacovigilance'')]"

definition openTargetsTermsLookup :: "jsstring \<Rightarrow> json" where
  "openTargetsTermsLookup k =
     (case map_of openTargetsTerms k of
        Some v \<Rightarrow> JStr v
      | None \<Rightarrow> if k = js ''constructor'' then JFunction (js ''Object'') else JUndefined)"

definition columnReservedWords :: "jsstring list" where
  "columnReservedWords = map js [''table'', ''index'', ''view'', ''column'', ''primary'', ''key'',
     ''foreign'', ''constraint'', ''order'', ''group'', ''select'', ''from'', ''where'']"

text \<open>The string \<open>snakeCase\<close> of \<open>sanitizeColumnName\<close> before the prefix is added.\<close>

definition cleanColumn :: "platform \<Rightarrow> jsstring \<Rightarrow> jsstring" where
  "cleanColumn pf s = cleanName (toLowerCase pf (underscoreBeforeUpper s))"

text \<open>
  \<open>sanitizeColumnName\<close>, the same text in both engines.  The result is a string, except for
  the inherited key, where it is the function found by the lookup.
\<close>

definition sanitizeColumnName :: "platform \<Rightarrow> jsstring \<Rightarrow> json \<Rightarrow> json" where
  "sanitizeColumnName pf rnd name =
     (case name of
        JStr s \<Rightarrow>
          if s = [] then JStr (js ''column_'' @ rnd)
          else (let snakeCase = cleanColumn pf s;
                    snakeCase1 = (if startsWithDigit snakeCase then js ''col_'' @ snakeCase
                                  else snakeCase);
                    snakeCase2 = (if snakeCase1 = [] then js ''column_'' @ rnd else snakeCase1)
                in case openTargetsTermsLookup snakeCase2 of
                     JStr v \<Rightarrow>
                       (let result = (if v = [] then snakeCase2 else v) in
                        if result \<in> set columnReservedWords then JStr (result @ js ''_col'')
                        else JStr result)
                   | JFunction f \<Rightarrow> JFunction f
                   | _ \<Rightarrow>
                       if snakeCase2 \<in> set columnReservedWords then JStr (snakeCase2 @ js ''_col'')
                       else JStr snakeCase2)
      | _ \<Rightarrow> JStr (js ''column_'' @ rnd))"

subsection \<open>\<open>validateAndFixIdentifier\<close> of \<open>JsonToSqlDO\<close>\<close>

datatype identifier_kind = KTable | KColumn

definition fixReservedWords :: "jsstring list" where
  "fixReservedWords = map js [''table'', ''index'', ''view'', ''column'', ''primary'', ''key'',
     ''foreign'', ''constraint'', ''order'', ''group'', ''select'', ''from'', ''where'', ''insert'',
     ''update'', ''delete'', ''create'', ''drop'', ''alter'', ''join'', ''inner'', ''outer'', ''left'',
     ''right'', ''union'', ''all'', ''distinct'', ''having'', ''limit'', ''offset'', ''as'', ''on'']"

definition validateAndFixIdentifier :: "platform \<Rightarrow> json \<Rightarrow> identifier_kind \<Rightarrow> jsstring" where
  "validateAndFixIdentifier pf name kind =
     (case name of
        JStr s \<Rightarrow>
          if s = [] then (case kind of KTable \<Rightarrow> js ''fallback_table'' | KColumn \<Rightarrow> js ''fallback_column'')
          else (let fixed = cleanName s;
                    fixed1 = (if startsWithDigit fixed
                              then (case kind of KTable \<Rightarrow> js ''table_'' | KColumn \<Rightarrow> js ''col_'') @ fixed
                              else fixed);
                    fixed2 = (if fixed1 = []
                              then (case kind of KTable \<Rightarrow> js ''fallback_table'' | KColumn \<Rightarrow> js ''fallback_column'')
                              else fixed1);
                    fixed3 = (if toLowerCase pf fixed2 \<in> set fixReservedWords
                              then fixed2 @ (case kind of KTable \<Rightarrow> js ''_tbl'' | KColumn \<Rightarrow> js ''_col'')
                              else fixed2)
                in toLowerCase pf fixed3)
      | _ \<Rightarrow> (case kind of KTable \<Rightarrow> js ''fallback_table'' | KColumn \<Rightarrow> js ''fallback_column''))"

section \<open>Column types (SchemaInferenceEngine)\<close>

text \<open>\<open>Number.isInteger\<close>\<close>

definition Number_isInteger :: "jsnum \<Rightarrow> bool" where
  "Number_isInteger n = (case n of Num r \<Rightarrow> of_int \<lfloor>r\<rfloor> = r | _ \<Rightarrow> False)"

definition getSQLiteType :: "json \<Rightarrow> jsstring" where
  "getSQLiteType v =
     (case v of
        JNull \<Rightarrow> js ''TEXT''
      | JUndefined \<Rightarrow> js ''TEXT''
      | JNum n \<Rightarrow> if Number_isInteger n then js ''INTEGER'' else js ''REAL''
      | JBool b \<Rightarrow> js ''INTEGER''
      | JStr s \<Rightarrow> js ''TEXT''
      | _ \<Rightarrow> js ''TEXT'')"

text \<open>
  \<open>columnTypes\<close> is a \<open>Record<string, Set<string>>\<close>: the columns in the order they were
  first seen, each with the set of its observed types in the order they were first added.
\<close>

type_synonym column_types = "(jsstring \<times> jsstring list) list"

definition setAdd :: "'a list \<Rightarrow> 'a \<Rightarrow> 'a list" where
  "setAdd xs x = (if x \<in> set xs then xs else xs @ [x])"

fun addColumnType :: "column_types \<Rightarrow> jsstring \<Rightarrow> jsstring \<Rightarrow> column_types" where
  "addColumnType [] column ty = [(column, [ty])]"
| "addColumnType ((c, tys) # rest) column ty =
     (if c = column then (c, setAdd tys ty) # rest
      else (c, tys) # addColumnType rest column ty)"

text \<open>One column of \<open>resolveColumnTypes\<close>.\<close>

definition resolveTypes :: "jsstring list \<Rightarrow> jsstring" where
  "resolveTypes types =
     (case types of
        [t] \<Rightarrow> t
      | _ \<Rightarrow> if js ''TEXT'' \<in> set types then js ''TEXT''
             else if js ''REAL'' \<in> set types then js ''REAL''
             else js ''INTEGER'')"

definition resolveColumnTypes :: "column_types \<Rightarrow> (jsstring \<times> jsstring) list" where
  "resolveColumnTypes columnTypes = map (\<lambda>(columnName, types). (columnName, resolveTypes types)) columnTypes"


text \<open>The observations of a column \<open>v\<close> that holds 1, 1.5 and the string \<open>a\<close>.\<close>

definition cts5 :: column_types where
  "cts5 = addColumnType (addColumnType (addColumnType [] (js ''v'') (getSQLiteType (JNum (Num 1))))
             (js ''v'') (getSQLiteType (JNum (Num 1.5)))) (js ''v'') (getSQLiteType (JStr (js ''a'')))"


section \<open>Properties of the platform functions\<close>

subsection \<open>\<open>atob\<close> inverts \<open>btoa\<close>\<close>


lemma unat_of_nat16: "n < 65536 \<Longrightarrow> unat (of_nat n :: 16 word) = n"
  by (simp add: unat_of_nat)

lemma unat_of_nat8: "n < 256 \<Longrightarrow> unat (of_nat n :: 8 word) = n"
  by (simp add: unat_of_nat)

lemma unat_b64char:
  "unat (b64char i) = (if i < 26 then 65 + i else if i < 52 then 71 + i
                       else if i < 62 then i - 4 else if i = 62 then 43 else 47)"
  unfolding b64char_def by (rule unat_of_nat16) auto

lemma b64val_b64char: "i < 64 \<Longrightarrow> b64val (b64char i) = Some i"
  unfolding b64val_def Let_def unat_b64char by (simp; linarith)

lemma b64char_not_pad: "i < 64 \<Longrightarrow> b64char i \<noteq> 61"
proof
  assume i: "i < 64" and "b64char i = 61"
  then have "b64val (b64char i) = b64val 61" by simp
  then show False using b64val_b64char[OF i] by (simp add: b64val_def)
qed

lemma b64char_not_ws: "i < 64 \<Longrightarrow> \<not> isAsciiWhitespace (b64char i)"
proof
  assume i: "i < 64" and "isAsciiWhitespace (b64char i)"
  then have "b64val (b64char i) = None"
    by (auto simp: isAsciiWhitespace_def b64val_def)
  then show False using b64val_b64char[OF i] by simp
qed


lemma padLen_step: "padLen (a # b # c # r) = padLen r"
  by (simp add: padLen_def)

lemma b64enc_split: "b64enc bs = map b64char (sextets bs) @ replicate (padLen bs) 61"
proof (induction bs rule: b64enc.induct)
  case (1 a b c r)
  then show ?case by (simp add: padLen_step)
next
  case (2 a b)
  then show ?case by (simp add: padLen_def)
next
  case (3 a)
  then show ?case by (simp add: padLen_def numeral_2_eq_2)
next
  case 4
  then show ?case by (simp add: padLen_def)
qed

lemma sextets_bound: "\<forall>b \<in> set bs. b < 256 \<Longrightarrow> \<forall>v \<in> set (sextets bs). v < 64"
proof (induction bs rule: sextets.induct)
  case (1 a b c r)
  have "a div 4 < 64" "(a mod 4) * 16 + b div 16 < 64" "(b mod 16) * 4 + c div 64 < 64" "c mod 64 < 64"
    using 1(2) by (auto intro: less_mult_imp_div_less)
  then show ?case using 1 by simp
next
  case (2 a b)
  have "a div 4 < 64" "(a mod 4) * 16 + b div 16 < 64" "(b mod 16) * 4 < 64"
    using 2 by (auto intro: less_mult_imp_div_less)
  then show ?case by simp
next
  case (3 a)
  have "a div 4 < 64" "(a mod 4) * 16 < 64"
    using 3 by (auto intro: less_mult_imp_div_less)
  then show ?case by simp
next
  case 4
  then show ?case by simp
qed

lemma div_mult_add_less: "x < n \<Longrightarrow> (k * n + x) div n = (k::nat)"
  by simp

lemma mod_mult_add_less: "x < n \<Longrightarrow> (k * n + x) mod n = (x::nat)"
  by simp

lemma b64dec_sextets: "\<forall>b \<in> set bs. b < 256 \<Longrightarrow> b64dec (sextets bs) = bs"
proof (induction bs rule: sextets.induct)
  case (1 a b c r)
  have b: "b div 16 < 16" and c: "c div 64 < 4" using 1(2) by (auto intro: less_mult_imp_div_less)
  have "a div 4 * 4 + ((a mod 4) * 16 + b div 16) div 16 = a"
    by (simp only: div_mult_add_less[OF b] div_mult_mod_eq)
  moreover have "(((a mod 4) * 16 + b div 16) mod 16) * 16 + ((b mod 16) * 4 + c div 64) div 4 = b"
    by (simp only: mod_mult_add_less[OF b] div_mult_add_less[OF c] div_mult_mod_eq)
  moreover have "(((b mod 16) * 4 + c div 64) mod 4) * 64 + c mod 64 = c"
    by (simp only: mod_mult_add_less[OF c] div_mult_mod_eq)
  ultimately show ?case using 1 by simp
next
  case (2 a b)
  have b: "b div 16 < 16" using 2 by (auto intro: less_mult_imp_div_less)
  have z: "(0::nat) < 4" by simp
  have "a div 4 * 4 + ((a mod 4) * 16 + b div 16) div 16 = a"
    by (simp only: div_mult_add_less[OF b] div_mult_mod_eq)
  moreover have "(((a mod 4) * 16 + b div 16) mod 16) * 16 + ((b mod 16) * 4) div 4 = b"
    using div_mult_add_less[OF z, of "b mod 16"]
    by (simp only: mod_mult_add_less[OF b] add_0_right div_mult_mod_eq)
  ultimately show ?case by simp
next
  case (3 a)
  have z: "(0::nat) < 16" by simp
  have "a div 4 * 4 + ((a mod 4) * 16) div 16 = a"
    using div_mult_add_less[OF z, of "a mod 4"] by (simp only: add_0_right div_mult_mod_eq)
  then show ?case by simp
next
  case 4
  then show ?case by simp
qed

lemma length_sextets: "length (sextets bs) + padLen bs = 4 * ((length bs + 2) div 3)"
proof (induction bs rule: sextets.induct)
  case (1 a b c r)
  have "(5 + length r) div 3 = Suc ((2 + length r) div 3)" by presburger
  with 1 show ?case by (simp add: padLen_step)
qed (simp_all add: padLen_def)

lemma length_b64enc: "length (b64enc bs) = 4 * ((length bs + 2) div 3)"
  by (simp add: b64enc_split length_sextets)

lemma padLen_cases: "padLen bs = 0 \<or> padLen bs = 1 \<or> padLen bs = 2"
  unfolding padLen_def by (simp; presburger)

lemma those_vals_map: "\<forall>v \<in> set vs. v < 64 \<Longrightarrow> those_vals (map b64char vs) = Some vs"
  by (induction vs) (simp_all add: b64val_b64char)

lemma sextets_last_not_pad:
  assumes "\<forall>v \<in> set vs. v < 64" "vs \<noteq> []"
  shows "last (map b64char vs) \<noteq> 61"
  using assms by (simp add: last_map b64char_not_pad)

lemma stripPadding_b64enc:
  assumes "\<forall>b \<in> set bs. b < 256"
  shows "stripPadding (b64enc bs) = map b64char (sextets bs)"
proof -
  let ?body = "map b64char (sextets bs)"
  have v: "\<forall>v \<in> set (sextets bs). v < 64" using assms by (rule sextets_bound)
  have len: "length (b64enc bs) mod 4 = 0" by (simp add: length_b64enc)
  have nl: "?body \<noteq> [] \<Longrightarrow> last ?body \<noteq> 61"
    using v by (simp add: last_map b64char_not_pad)
  from padLen_cases[of bs] show ?thesis
  proof (elim disjE)
    assume p: "padLen bs = 0"
    then have e: "b64enc bs = ?body" by (simp add: b64enc_split)
    show ?thesis unfolding e stripPadding_def using nl by auto
  next
    assume p: "padLen bs = 1"
    then have e: "b64enc bs = ?body @ [61]" by (simp add: b64enc_split)
    have "length (?body @ [61]) mod 4 = 0" using len e by simp
    then show ?thesis unfolding e stripPadding_def Let_def using nl by auto
  next
    assume p: "padLen bs = 2"
    then have e: "b64enc bs = (?body @ [61]) @ [61]" by (simp add: b64enc_split numeral_2_eq_2)
    have "length ((?body @ [61]) @ [61]) mod 4 = 0" using len e by simp
    then show ?thesis unfolding e stripPadding_def Let_def by (simp only: butlast_snoc last_snoc) simp
  qed
qed

lemma length_sextets_mod: "length (sextets bs) mod 4 \<noteq> 1"
proof (induction bs rule: sextets.induct)
  case (1 a b c r)
  then show ?case by (simp add: mod_Suc)
qed simp_all

lemma filter_ws_b64enc:
  assumes "\<forall>b \<in> set bs. b < 256"
  shows "filter (\<lambda>c. \<not> isAsciiWhitespace c) (b64enc bs) = b64enc bs"
proof -
  have v: "\<forall>v \<in> set (sextets bs). v < 64" using assms by (rule sextets_bound)
  have "\<not> isAsciiWhitespace 61" by (simp add: isAsciiWhitespace_def)
  then show ?thesis
    unfolding b64enc_split using v by (auto simp: filter_id_conv b64char_not_ws)
qed

lemma atob_b64enc:
  assumes "\<forall>b \<in> set bs. b < 256"
  shows "atob (b64enc bs) = Inr (map of_nat bs)"
proof -
  have v: "\<forall>v \<in> set (sextets bs). v < 64" using assms by (rule sextets_bound)
  show ?thesis
    unfolding atob_def filter_ws_b64enc[OF assms] stripPadding_b64enc[OF assms] Let_def
    using length_sextets_mod[of bs] by (simp add: those_vals_map[OF v] b64dec_sextets[OF assms])
qed


subsection \<open>\<open>decompress\<close> after \<open>compress\<close>\<close>


lemma ucast_8_16_8: "(ucast (ucast (b :: byte) :: jschar) :: byte) = b"
  by (simp add: ucast_up_ucast_id is_up)

lemma unat_byte_lt: "unat (b :: byte) < 256"
  by (rule order_less_le_trans[OF unsigned_less]) simp

lemma unat_char_of_byte: "unat (ucast (b :: byte) :: jschar) = unat b"
  by (simp add: unsigned_ucast_eq take_bit_nat_eq_self order_less_le_trans[OF unsigned_less])

lemma compress_decompress_gzip:
  assumes c: "CompressionStream pf = Some gz"
      and d: "DecompressionStream pf = Some gunz"
      and lossless: "gunz (gz (TextEncoder_encode s)) = Some (TextEncoder_encode s)"
      and fits: "length (gz (TextEncoder_encode s)) \<le> argumentLimit pf"
  shows "\<exists>r. compress pf s = Inr r \<and> decompress pf r = Inr (TextDecoder_decode (TextEncoder_encode s))"
proof -
  let ?combined = "gz (TextEncoder_encode s)"
  let ?binary = "map ucast ?combined :: jsstring"
  have f: "fromCharCodeSpread pf ?combined = Inr ?binary"
    using fits by (simp add: fromCharCodeSpread_def)
  have small: "\<not> (\<exists>c \<in> set ?binary. 255 < unat c)"
    using unat_byte_lt by (auto simp: unat_char_of_byte not_less less_Suc_eq_le[symmetric])
  have u: "map unat ?binary = map unat ?combined"
    by (simp add: unat_char_of_byte comp_def)
  have b: "btoa ?binary = Inr (b64enc (map unat ?combined))"
    unfolding btoa_def u using small by (simp only: if_False)
  have comp: "compress pf s = Inr (b64enc (map unat ?combined))"
    unfolding compress_def Let_def c by (simp add: f b)
  have bs256: "\<forall>b \<in> set (map unat ?combined). b < 256"
    using unat_byte_lt by auto
  have rt: "map ucast (map of_nat (map unat ?combined) :: jsstring) = ?combined"
    by (simp add: comp_def ucast_8_16_8)
  have "decompress pf (b64enc (map unat ?combined)) = Inr (TextDecoder_decode (TextEncoder_encode s))"
    unfolding decompress_def d Let_def atob_b64enc[OF bs256]
    by (simp only: rt lossless sum.case option.case)
  with comp show ?thesis by blast
qed

lemma compress_decompress_fallback:
  assumes c: "CompressionStream pf = None"
      and d: "DecompressionStream pf = None"
      and r: "compress pf s = Inr r"
  shows "decompress pf r = Inr s"
proof -
  from r c have small: "\<not> (\<exists>c \<in> set s. 255 < unat c)" and r': "r = b64enc (map unat s)"
    by (auto simp: compress_def btoa_def split: if_splits)
  have bs256: "\<forall>b \<in> set (map unat s). b < 256" using small by (auto simp: not_less)
  have "map of_nat (map unat s) = s" by (simp add: comp_def)
  then show ?thesis
    unfolding decompress_def d r' atob_b64enc[OF bs256] by simp
qed


section \<open>Properties of the chunk store\<close>


lemma ceil_div_step:
  fixes c d :: nat
  assumes "0 < c" "0 < d"
  shows "(d + (c - 1)) div c = Suc ((d - c + (c - 1)) div c)"
proof (cases "c \<le> d")
  case True
  then have "d + (c - 1) = (d - c + (c - 1)) + c" by simp
  then have "(d + (c - 1)) div c = ((d - c + (c - 1)) + c) div c" by simp
  also have "\<dots> = Suc ((d - c + (c - 1)) div c)" using assms(1) by (simp only: div_add_self2)
  finally show ?thesis .
next
  case False
  then have z: "d - c = 0" by simp
  have "(c - 1) div c = 0" using assms(1) by simp
  moreover have "(d + (c - 1)) div c = 1"
    by (rule div_nat_eqI) (use False assms in simp_all)
  ultimately show ?thesis using z by simp
qed

lemma slice_length: "length (slice s i j) = min j (length s) - i"
  by (simp add: slice_def)

lemma slice_append_drop: "slice s i (i + n) @ drop (i + n) s = drop i s"
proof -
  have "slice s i (i + n) = take n (drop i s)"
    by (simp add: slice_def take_drop add.commute)
  moreover have "drop (i + n) s = drop n (drop i s)"
    by (simp add: add.commute)
  ultimately show ?thesis by (simp only: append_take_drop_id)
qed

lemma splitLoop_concat: "concat (splitLoop s i acc) = concat acc @ drop i s"
proof (induction s i acc rule: splitLoop.induct)
  case (1 content i chunks)
  show ?case
  proof (cases "i < length content")
    case True
    with 1 show ?thesis by (subst splitLoop.simps) (simp add: slice_append_drop)
  next
    case False
    then show ?thesis by (subst splitLoop.simps) simp
  qed
qed

lemma upt_0_Suc: "[0..<Suc m] = 0 # map Suc [0..<m]"
  by (simp add: upt_conv_Cons map_Suc_upt del: upt_Suc)

lemma splitLoop_closed:
  "splitLoop s i acc =
     acc @ map (\<lambda>k. slice s (i + k * CHUNK_SIZE) (i + k * CHUNK_SIZE + CHUNK_SIZE))
               [0..<chunkCount (length s - i)]"
proof (induction s i acc rule: splitLoop.induct)
  case (1 content i chunks)
  show ?case
  proof (cases "i < length content")
    case True
    have cs: "0 < CHUNK_SIZE" by (simp add: CHUNK_SIZE_def)
    have n: "chunkCount (length content - i) = Suc (chunkCount (length content - (i + CHUNK_SIZE)))"
      unfolding chunkCount_def using ceil_div_step[OF cs, of "length content - i"] True by simp
    have "splitLoop content i chunks = splitLoop content (i + CHUNK_SIZE) (chunks @ [slice content i (i + CHUNK_SIZE)])"
      using True by (subst splitLoop.simps) simp
    also have "\<dots> = (chunks @ [slice content i (i + CHUNK_SIZE)]) @
        map (\<lambda>k. slice content (i + CHUNK_SIZE + k * CHUNK_SIZE) (i + CHUNK_SIZE + k * CHUNK_SIZE + CHUNK_SIZE))
          [0..<chunkCount (length content - (i + CHUNK_SIZE))]"
      using 1 True by simp
    also have "\<dots> = chunks @ map (\<lambda>k. slice content (i + k * CHUNK_SIZE) (i + k * CHUNK_SIZE + CHUNK_SIZE))
          [0..<chunkCount (length content - i)]"
    proof -
      have a: "i + CHUNK_SIZE + k * CHUNK_SIZE = i + Suc k * CHUNK_SIZE" for k by simp
      show ?thesis unfolding n upt_0_Suc
        by (simp only: a list.map map_map comp_def append_Cons append_Nil append_assoc mult_0 add_0_right)
    qed
    finally show ?thesis .
  next
    case False
    then show ?thesis by (subst splitLoop.simps) (simp add: chunkCount_def CHUNK_SIZE_def)
  qed
qed

lemma splitIntoChunks_closed:
  "splitIntoChunks p = map (\<lambda>k. slice p (k * CHUNK_SIZE) (k * CHUNK_SIZE + CHUNK_SIZE)) [0..<chunkCount (length p)]"
  unfolding splitIntoChunks_def splitLoop_closed by simp

lemma splitIntoChunks_concat: "concat (splitIntoChunks p) = p"
  by (simp add: splitIntoChunks_def splitLoop_concat)

lemma full_chunk:
  assumes "k + 1 < chunkCount (length p)"
  shows "length (slice p (k * CHUNK_SIZE) (k * CHUNK_SIZE + CHUNK_SIZE)) = CHUNK_SIZE"
proof -
  have cs: "0 < CHUNK_SIZE" by (simp add: CHUNK_SIZE_def)
  have "(k + 2) * CHUNK_SIZE \<le> chunkCount (length p) * CHUNK_SIZE"
    using assms by (intro mult_le_mono1) simp
  also have "\<dots> \<le> length p + (CHUNK_SIZE - 1)"
    unfolding chunkCount_def by (rule div_times_less_eq_dividend)
  finally have "k * CHUNK_SIZE + CHUNK_SIZE \<le> length p" using cs by simp
  then show ?thesis by (simp add: slice_length)
qed

lemma storeChunks_Inr:
  "storeChunks cid cs i db = (Inr u, db') \<Longrightarrow> content_chunks db = Some rows \<Longrightarrow>
   db' = db\<lparr>content_chunks := Some (rows @ map (\<lambda>k. mkChunk cid (i + k) (cs ! k)) [0..<length cs])\<rparr>"
proof (induction cs arbitrary: i db rows)
  case Nil
  then show ?case by simp
next
  case (Cons c cs)
  from Cons.prems obtain db1 where
    ins: "insertChunk (mkChunk cid i c) db = (Inr (), db1)" and
    rest: "storeChunks cid cs (i + 1) db1 = (Inr u, db')"
    by (auto simp: mkChunk_def split: prod.splits sum.splits)
  from ins Cons.prems(2) have db1: "db1 = db\<lparr>content_chunks := Some (rows @ [mkChunk cid i c])\<rparr>"
    by (auto simp: insertChunk_def split: if_splits)
  then have "content_chunks db1 = Some (rows @ [mkChunk cid i c])" by simp
  from Cons.IH[OF rest this]
  have "db' = db1\<lparr>content_chunks := Some ((rows @ [mkChunk cid i c]) @ map (\<lambda>k. mkChunk cid (i + 1 + k) (cs ! k)) [0..<length cs])\<rparr>" .
  moreover have "map (\<lambda>k. mkChunk cid (i + k) ((c # cs) ! k)) [0..<length (c # cs)]
      = mkChunk cid i c # map (\<lambda>k. mkChunk cid (i + 1 + k) (cs ! k)) [0..<length cs]"
    by (simp add: upt_0_Suc comp_def del: upt_Suc)
  ultimately show ?case using db1 by simp
qed

lemma storeChunks_fresh:
  "content_chunks db = Some rows \<Longrightarrow>
   \<forall>r \<in> set rows. content_id r = cid \<longrightarrow> chunk_index r < i \<Longrightarrow>
   \<exists>db'. storeChunks cid cs i db = (Inr (), db')"
proof (induction cs arbitrary: i db rows)
  case Nil
  then show ?case by simp
next
  case (Cons c cs)
  let ?row = "\<lparr>content_id = cid, chunk_index = i, chunk_data = c, chunk_size = length c\<rparr>"
  let ?db1 = "db\<lparr>content_chunks := Some (rows @ [?row])\<rparr>"
  have ins: "insertChunk ?row db = (Inr (), ?db1)"
    using Cons.prems by (auto simp: insertChunk_def)
  have "\<exists>db'. storeChunks cid cs (i + 1) ?db1 = (Inr (), db')"
    by (rule Cons.IH[where rows = "rows @ [?row]"]) (use Cons.prems in \<open>auto simp: less_Suc_eq\<close>)
  then show ?case using ins by simp
qed


lemma chunkCount_eq: "chunkCount n = (n + 16383) div 16384"
  by (simp add: chunkCount_def CHUNK_SIZE_def)

lemma storeChunkedContent_Inr:
  assumes "storeChunkedContent pf uuid s ctype db = (Inr md, db')"
  shows "md = \<lparr>contentId = generateContentId uuid,
               totalChunks = length (splitIntoChunks (fst (processContent pf s))),
               originalSize = length s, contentType = ctype,
               compressed = snd (processContent pf s),
               encoding = (if snd (processContent pf s) then Some (js ''gzip'') else None)\<rparr>"
    and "\<exists>db2. storeChunks (generateContentId uuid) (splitIntoChunks (fst (processContent pf s))) 0
            (ensureChunksTable db) = (Inr (), db2) \<and> storeMetadata md db2 = (Inr (), db')"
  using assms
  by (auto simp: storeChunkedContent_def Let_def split: prod.splits sum.splits)

lemma js_simps [simp]: "js [] = []" "js (c # cs) = of_nat (of_char c) # js cs"
  by (simp_all add: js_def)

lemma processContent_s0: "processContent pf0 (replicate 16385 0x3B1) = (replicate 16385 0x3B1, False)"
  by (simp add: processContent_def ENABLE_COMPRESSION_def shouldCompress_def compress_def pf0_def btoa_def)

lemma split_s0: "splitIntoChunks (replicate 16385 (0x3B1 :: jschar)) = [replicate 16384 0x3B1, [0x3B1]]"
  by (simp add: splitIntoChunks_closed chunkCount_eq CHUNK_SIZE_def slice_def upt_0_Suc numeral_2_eq_2 del: upt_Suc)

lemma store_s0:
  "storeChunkedContent pf0 (js ''ab-c'') (replicate 16385 0x3B1) CT_text db0 =
    (Inr \<lparr>contentId = js ''chunk_abc'', totalChunks = 2, originalSize = 16385, contentType = CT_text,
           compressed = False, encoding = None\<rparr>,
     \<lparr>content_chunks = Some [
        \<lparr>content_id = js ''chunk_abc'', chunk_index = 0, chunk_data = replicate 16384 0x3B1, chunk_size = 16384\<rparr>,
        \<lparr>content_id = js ''chunk_abc'', chunk_index = 1, chunk_data = [0x3B1], chunk_size = 1\<rparr>],
      chunk_metadata = Some [
        \<lparr>row_content_id = js ''chunk_abc'', row_total_chunks = 2, row_original_size = 16385,
         row_content_type = CT_text, row_compressed = 0, row_encoding = None\<rparr>]\<rparr>)"
  by (simp add: storeChunkedContent_def processContent_s0 split_s0 generateContentId_def
        ensureChunksTable_def db0_def insertChunk_def storeMetadata_def Let_def)

text \<open>
  Claim C10.  Every successful call of \<open>storeChunkedContent\<close> on content \<open>s\<close>, with \<open>p\<close> the
  content after the compression step, appends exactly \<open>ceil(length p / 16384)\<close> chunk rows
  whose indices are \<open>0, 1, ..., n - 1\<close> in this order, every chunk but the last holding 16384
  code units; it appends one metadata row whose \<open>total_chunks\<close> is that count and whose
  \<open>original_size\<close> is the number of UTF-16 code units of \<open>s\<close>; and all of these rows are in
  the database that is returned together with the metadata from which the reference token
  \<open>__CHUNKED__:<id>\<close> is built.
\<close>

theorem C10_store_layout:
  assumes "storeChunkedContent pf uuid s ctype db = (Inr md, db')"
  shows "let p = fst (processContent pf s);
             n = (length p + 16383) div 16384;
             cid = generateContentId uuid;
             old = (case content_chunks db of None \<Rightarrow> [] | Some rows \<Rightarrow> rows);
             oldm = (case chunk_metadata db of None \<Rightarrow> [] | Some rows \<Rightarrow> rows)
         in content_chunks db' = Some (old @ map (\<lambda>i.
                \<lparr>content_id = cid, chunk_index = i,
                 chunk_data = slice p (i * 16384) (i * 16384 + 16384),
                 chunk_size = length (slice p (i * 16384) (i * 16384 + 16384))\<rparr>) [0..<n])
          \<and> (\<forall>i. i + 1 < n \<longrightarrow> length (slice p (i * 16384) (i * 16384 + 16384)) = 16384)
          \<and> chunk_metadata db' = Some (oldm @
                [\<lparr>row_content_id = cid, row_total_chunks = n, row_original_size = length s,
                  row_content_type = ctype, row_compressed = (if compressed md then 1 else 0),
                  row_encoding = encoding md\<rparr>])
          \<and> totalChunks md = n \<and> originalSize md = length s \<and> contentId md = cid
          \<and> createContentReference md = js ''__CHUNKED__:'' @ cid"
proof -
  define p where "p = fst (processContent pf s)"
  define cid where "cid = generateContentId uuid"
  define n where "n = (length p + 16383) div 16384"
  define old where "old = (case content_chunks db of None \<Rightarrow> [] | Some rows \<Rightarrow> rows)"
  define oldm where "oldm = (case chunk_metadata db of None \<Rightarrow> [] | Some rows \<Rightarrow> rows)"
  have len: "length (splitIntoChunks p) = n"
    by (simp add: splitIntoChunks_closed chunkCount_eq n_def)
  have md: "totalChunks md = n" "originalSize md = length s" "contentId md = cid"
    using storeChunkedContent_Inr(1)[OF assms] len by (simp_all add: p_def cid_def)
  from storeChunkedContent_Inr(2)[OF assms] obtain db2 where
    sc: "storeChunks cid (splitIntoChunks p) 0 (ensureChunksTable db) = (Inr (), db2)" and
    sm: "storeMetadata md db2 = (Inr (), db')"
    by (auto simp: p_def cid_def)
  have e: "content_chunks (ensureChunksTable db) = Some old"
    by (simp add: ensureChunksTable_def old_def)
  have rows: "map (\<lambda>k. mkChunk cid (0 + k) (splitIntoChunks p ! k)) [0..<length (splitIntoChunks p)]
      = map (\<lambda>i. \<lparr>content_id = cid, chunk_index = i,
                 chunk_data = slice p (i * 16384) (i * 16384 + 16384),
                 chunk_size = length (slice p (i * 16384) (i * 16384 + 16384))\<rparr>) [0..<n]"
    unfolding len by (rule map_cong) (simp_all add: splitIntoChunks_closed chunkCount_eq n_def[symmetric] mkChunk_def CHUNK_SIZE_def)
  have db2: "db2 = (ensureChunksTable db)\<lparr>content_chunks := Some (old @ map (\<lambda>i. \<lparr>content_id = cid, chunk_index = i,
                 chunk_data = slice p (i * 16384) (i * 16384 + 16384),
                 chunk_size = length (slice p (i * 16384) (i * 16384 + 16384))\<rparr>) [0..<n])\<rparr>"
    using storeChunks_Inr[OF sc e] unfolding rows .
  have m2: "chunk_metadata db2 = Some oldm"
    unfolding db2 by (simp add: ensureChunksTable_def oldm_def)
  have db': "db' = db2\<lparr>chunk_metadata := Some (oldm @
                [\<lparr>row_content_id = cid, row_total_chunks = n, row_original_size = length s,
                  row_content_type = contentType md, row_compressed = (if compressed md then 1 else 0),
                  row_encoding = encoding md\<rparr>])\<rparr>"
    using sm m2 md by (auto simp: storeMetadata_def split: if_splits)
  have ct: "contentType md = ctype"
    using storeChunkedContent_Inr(1)[OF assms] by simp
  have full: "\<forall>i. i + 1 < n \<longrightarrow> length (slice p (i * 16384) (i * 16384 + 16384)) = 16384"
    using full_chunk[of _ p] by (simp add: chunkCount_eq n_def CHUNK_SIZE_def)
  have c1: "content_chunks db' = Some (old @ map (\<lambda>i. \<lparr>content_id = cid, chunk_index = i,
                 chunk_data = slice p (i * 16384) (i * 16384 + 16384),
                 chunk_size = length (slice p (i * 16384) (i * 16384 + 16384))\<rparr>) [0..<n])"
    unfolding db' by (subst db2) simp
  have c2: "chunk_metadata db' = Some (oldm @
                [\<lparr>row_content_id = cid, row_total_chunks = n, row_original_size = length s,
                  row_content_type = ctype, row_compressed = (if compressed md then 1 else 0),
                  row_encoding = encoding md\<rparr>])"
    unfolding db' ct by simp
  have c3: "createContentReference md = js ''__CHUNKED__:'' @ cid"
    by (simp add: createContentReference_def md)
  show ?thesis
    unfolding Let_def p_def[symmetric] n_def[symmetric] cid_def[symmetric] old_def[symmetric] oldm_def[symmetric]
    using c1 c2 c3 md full by blast
qed

theorem C10_store_layout_witness:
  "storeChunkedContent pf0 (js ''ab-c'') (replicate 16385 0x3B1) CT_text db0 =
    (Inr \<lparr>contentId = js ''chunk_abc'', totalChunks = 2, originalSize = 16385, contentType = CT_text,
           compressed = False, encoding = None\<rparr>,
     \<lparr>content_chunks = Some [
        \<lparr>content_id = js ''chunk_abc'', chunk_index = 0, chunk_data = replicate 16384 0x3B1, chunk_size = 16384\<rparr>,
        \<lparr>content_id = js ''chunk_abc'', chunk_index = 1, chunk_data = [0x3B1], chunk_size = 1\<rparr>],
      chunk_metadata = Some [
        \<lparr>row_content_id = js ''chunk_abc'', row_total_chunks = 2, row_original_size = 16385,
         row_content_type = CT_text, row_compressed = 0, row_encoding = None\<rparr>]\<rparr>)
   \<and> (16385 + 16383) div 16384 = (2::nat)
   \<and> length (slice (replicate 16385 (0x3B1 :: jschar)) (0 * 16384) (0 * 16384 + 16384)) = 16384
   \<and> createContentReference \<lparr>contentId = js ''chunk_abc'', totalChunks = 2, originalSize = 16385,
         contentType = CT_text, compressed = False, encoding = None\<rparr> = js ''__CHUNKED__:'' @ js ''chunk_abc''"
proof -
  note h = store_s0
  from C10_store_layout[OF h]
  have "createContentReference \<lparr>contentId = js ''chunk_abc'', totalChunks = 2, originalSize = 16385,
         contentType = CT_text, compressed = False, encoding = None\<rparr> = js ''__CHUNKED__:'' @ generateContentId (js ''ab-c'')"
    by (simp add: Let_def generateContentId_def)
  then show ?thesis using h by (simp add: generateContentId_def slice_def)
qed



lemma storeChunkedContent_result:
  assumes "storeChunkedContent pf uuid s ctype db = (Inr md, db')"
  shows "db' = db\<lparr>content_chunks := Some ((case content_chunks db of None \<Rightarrow> [] | Some rows \<Rightarrow> rows) @
                 map (\<lambda>i. mkChunk (generateContentId uuid) i
                        (slice (fst (processContent pf s)) (i * CHUNK_SIZE) (i * CHUNK_SIZE + CHUNK_SIZE)))
                   [0..<chunkCount (length (fst (processContent pf s)))]),
               chunk_metadata := Some ((case chunk_metadata db of None \<Rightarrow> [] | Some rows \<Rightarrow> rows) @
                 [\<lparr>row_content_id = generateContentId uuid,
                   row_total_chunks = chunkCount (length (fst (processContent pf s))),
                   row_original_size = length s, row_content_type = ctype,
                   row_compressed = (if snd (processContent pf s) then 1 else 0),
                   row_encoding = (if snd (processContent pf s) then Some (js ''gzip'') else None)\<rparr>])\<rparr>"
proof -
  define p where "p = fst (processContent pf s)"
  define cid where "cid = generateContentId uuid"
  define old where "old = (case content_chunks db of None \<Rightarrow> [] | Some rows \<Rightarrow> rows)"
  define oldm where "oldm = (case chunk_metadata db of None \<Rightarrow> [] | Some rows \<Rightarrow> rows)"
  note md = storeChunkedContent_Inr(1)[OF assms]
  have len: "length (splitIntoChunks p) = chunkCount (length p)"
    by (simp add: splitIntoChunks_closed)
  from storeChunkedContent_Inr(2)[OF assms] obtain db2 where
    sc: "storeChunks cid (splitIntoChunks p) 0 (ensureChunksTable db) = (Inr (), db2)" and
    sm: "storeMetadata md db2 = (Inr (), db')"
    by (auto simp: p_def cid_def)
  have e: "content_chunks (ensureChunksTable db) = Some old"
    by (simp add: ensureChunksTable_def old_def)
  have rows: "map (\<lambda>k. mkChunk cid (0 + k) (splitIntoChunks p ! k)) [0..<length (splitIntoChunks p)]
      = map (\<lambda>i. mkChunk cid i (slice p (i * CHUNK_SIZE) (i * CHUNK_SIZE + CHUNK_SIZE))) [0..<chunkCount (length p)]"
    unfolding len by (rule map_cong) (simp_all add: splitIntoChunks_closed)
  have db2: "db2 = (ensureChunksTable db)\<lparr>content_chunks := Some (old @
       map (\<lambda>i. mkChunk cid i (slice p (i * CHUNK_SIZE) (i * CHUNK_SIZE + CHUNK_SIZE))) [0..<chunkCount (length p)])\<rparr>"
    using storeChunks_Inr[OF sc e] unfolding rows .
  have m2: "chunk_metadata db2 = Some oldm"
    unfolding db2 by (simp add: ensureChunksTable_def oldm_def)
  have "db' = db2\<lparr>chunk_metadata := Some (oldm @
                [\<lparr>row_content_id = contentId md, row_total_chunks = totalChunks md,
                  row_original_size = originalSize md, row_content_type = contentType md,
                  row_compressed = (if compressed md then 1 else 0),
                  row_encoding = encoding md\<rparr>])\<rparr>"
    using sm m2 by (auto simp: storeMetadata_def split: if_splits)
  then show ?thesis
    unfolding db2 p_def[symmetric] cid_def[symmetric] old_def[symmetric] oldm_def[symmetric]
    by (simp add: md len p_def[symmetric] cid_def[symmetric] ensureChunksTable_def)
qed

lemma storeChunkedContent_succeeds:
  assumes "\<forall>r \<in> set (case content_chunks db of None \<Rightarrow> [] | Some rows \<Rightarrow> rows). content_id r \<noteq> generateContentId uuid"
      and "\<forall>r \<in> set (case chunk_metadata db of None \<Rightarrow> [] | Some rows \<Rightarrow> rows). row_content_id r \<noteq> generateContentId uuid"
  shows "\<exists>md db'. storeChunkedContent pf uuid s ctype db = (Inr md, db')"
proof -
  obtain p c where pc: "processContent pf s = (p, c)" by (cases "processContent pf s")
  define cid where "cid = generateContentId uuid"
  define old where "old = (case content_chunks db of None \<Rightarrow> [] | Some rows \<Rightarrow> rows)"
  define oldm where "oldm = (case chunk_metadata db of None \<Rightarrow> [] | Some rows \<Rightarrow> rows)"
  define md where "md = \<lparr>contentId = cid, totalChunks = length (splitIntoChunks p),
                    originalSize = length s, contentType = ctype,
                    compressed = c,
                    encoding = (if c then Some (js ''gzip'') else None)\<rparr>"
  have e: "content_chunks (ensureChunksTable db) = Some old"
    by (simp add: ensureChunksTable_def old_def)
  have "\<forall>r \<in> set old. content_id r = cid \<longrightarrow> chunk_index r < 0"
    using assms(1) by (simp add: old_def cid_def)
  from storeChunks_fresh[OF e this] obtain db2 where
    sc: "storeChunks cid (splitIntoChunks p) 0 (ensureChunksTable db) = (Inr (), db2)" by blast
  from storeChunks_Inr[OF sc e] have "chunk_metadata db2 = Some oldm"
    by (simp add: ensureChunksTable_def oldm_def)
  then obtain db3 where sm: "storeMetadata md db2 = (Inr (), db3)"
    using assms(2) by (auto simp: storeMetadata_def oldm_def cid_def md_def)
  have "storeChunkedContent pf uuid s ctype db = (Inr md, db3)"
    unfolding storeChunkedContent_def Let_def pc cid_def[symmetric]
    by (simp add: sc sm md_def[symmetric])
  then show ?thesis by blast
qed



lemma processContent_uncompressed: "snd (processContent pf s) = False \<Longrightarrow> fst (processContent pf s) = s"
  by (auto simp: processContent_def split: if_splits sum.splits)

lemma processContent_compressed:
  "snd (processContent pf s) \<Longrightarrow> 8192 < length s \<and> compress pf s = Inr (fst (processContent pf s))"
  by (auto simp: processContent_def shouldCompress_def split: if_splits sum.splits)

lemma retrieveTry_after_store:
  assumes store: "storeChunkedContent pf uuid s ctype db = (Inr md, db')"
      and fresh1: "\<forall>r \<in> set (case content_chunks db of None \<Rightarrow> [] | Some rows \<Rightarrow> rows). content_id r \<noteq> generateContentId uuid"
      and fresh2: "\<forall>r \<in> set (case chunk_metadata db of None \<Rightarrow> [] | Some rows \<Rightarrow> rows). row_content_id r \<noteq> generateContentId uuid"
  shows "retrieveTry pf (generateContentId uuid) db' =
     (if compressed md then
        (case decompress pf (fst (processContent pf s)) of
           Inl e \<Rightarrow> Inl FailedToDecompress | Inr s' \<Rightarrow> Inr (Some s'))
      else Inr (Some s))"
proof -
  define p where "p = fst (processContent pf s)"
  define cid where "cid = generateContentId uuid"
  define old where "old = (case content_chunks db of None \<Rightarrow> [] | Some rows \<Rightarrow> rows)"
  define oldm where "oldm = (case chunk_metadata db of None \<Rightarrow> [] | Some rows \<Rightarrow> rows)"
  define new where "new = map (\<lambda>i. mkChunk cid i (slice p (i * CHUNK_SIZE) (i * CHUNK_SIZE + CHUNK_SIZE)))
                   [0..<chunkCount (length p)]"
  define row where "row = \<lparr>row_content_id = cid,
                   row_total_chunks = chunkCount (length p),
                   row_original_size = length s, row_content_type = ctype,
                   row_compressed = (if snd (processContent pf s) then 1 else 0),
                   row_encoding = (if snd (processContent pf s) then Some (js ''gzip'') else None)\<rparr>"
  note md = storeChunkedContent_Inr(1)[OF store]
  have db': "db' = db\<lparr>content_chunks := Some (old @ new), chunk_metadata := Some (oldm @ [row])\<rparr>"
    using storeChunkedContent_result[OF store]
    unfolding p_def cid_def old_def oldm_def new_def row_def .
  have len: "length (splitIntoChunks p) = chunkCount (length p)"
    by (simp add: splitIntoChunks_closed)
  have fm: "filter (\<lambda>r. row_content_id r = cid) oldm = []"
    using fresh2 by (simp add: oldm_def cid_def)
  have fr: "row_content_id row = cid" by (simp add: row_def)
  have gm: "getMetadata pf cid db' = Inr (Some md)"
    unfolding getMetadata_def db' by (simp add: fm fr) (simp add: md row_def len[unfolded p_def] cid_def p_def)
  have f1: "filter (\<lambda>r. content_id r = cid) old = []"
    using fresh1 by (simp add: old_def cid_def)
  have f2: "filter (\<lambda>r. content_id r = cid) new = new"
    by (simp add: new_def mkChunk_def)
  have srt: "sort_key chunk_index new = new"
    by (rule sort_key_id_if_sorted) (simp add: new_def comp_def mkChunk_def)
  have cd: "map chunk_data new = splitIntoChunks p"
    by (simp add: new_def comp_def mkChunk_def splitIntoChunks_closed)
  have gc: "getChunks cid n db' = Inr (splitIntoChunks p)" for n
    unfolding getChunks_def db' by (simp add: f1 f2 srt cd)
  have tc: "totalChunks md = length (splitIntoChunks p)"
    by (simp add: md p_def)
  have cm: "compressed md = snd (processContent pf s)"
    by (simp add: md)
  show ?thesis
  proof (cases "compressed md")
    case True
    then show ?thesis
      unfolding retrieveTry_def cid_def[symmetric] gm
      by (simp add: gc tc splitIntoChunks_concat p_def)
  next
    case False
    then have "p = s" using processContent_uncompressed[of pf s] cm by (simp add: p_def)
    with False show ?thesis
      unfolding retrieveTry_def cid_def[symmetric] gm
      by (simp add: gc tc splitIntoChunks_concat)
  qed
qed

lemma extract_reference: "extractContentId (createContentReference md) = contentId md"
  by (simp add: extractContentId_def createContentReference_def startsWith_def)


subsection \<open>Failure modes of retrieval\<close>


lemma retrieveChunkedContent_never_throws: "retrieveChunkedContent pf cid db \<noteq> Inl e"
  by (simp add: retrieveChunkedContent_def split: sum.splits)

text \<open>
  Claim C7.  The claim is that retrieval tells a missing metadata record (result \<open>null\<close>,
  sentinel \<open>[CHUNKED_CONTENT_NOT_FOUND:<id>]\<close>) from a chunk count that differs from
  \<open>total_chunks\<close> (an error, sentinel \<open>[CHUNKED_CONTENT_ERROR:<detail>]\<close>).  In the code the
  error thrown for the differing count is caught by the \<open>catch\<close> clause of
  \<open>retrieveChunkedContent\<close> itself, so both cases return \<open>null\<close> and both cells bear the
  \<open>NOT_FOUND\<close> sentinel.  The database \<open>db7\<close> holds metadata for \<open>chunk_x\<close> with
  \<open>total_chunks = 2\<close> and a single chunk row, and nothing for \<open>chunk_y\<close>.
\<close>

theorem C7_corrupt_chunk_set_reported_as_missing:
  "retrieveTry pf0 (js ''chunk_x'') db7 = Inl (MissingChunks 2 1)
   \<and> retrieveChunkedContent pf0 (js ''chunk_x'') db7 = Inr None
   \<and> retrieveChunkedContent pf0 (js ''chunk_y'') db7 = Inr None
   \<and> resolveChunkedContentInResults pf0 db7
         [[(js ''description'', JStr (js ''__CHUNKED__:chunk_x''))]] =
         [[(js ''description'', JStr (js ''[CHUNKED_CONTENT_NOT_FOUND:chunk_x]''))]]"
proof -
  have t: "retrieveTry pf0 (js ''chunk_x'') db7 = Inl (MissingChunks 2 1)"
    by (simp add: retrieveTry_def getMetadata_def getChunks_def db7_def pf0_def)
  have y: "retrieveTry pf0 (js ''chunk_y'') db7 = Inl SqlError"
    by (simp add: retrieveTry_def getMetadata_def getChunks_def db7_def pf0_def)
  have x: "extractContentId (js ''__CHUNKED__:chunk_x'') = js ''chunk_x''"
    by (simp add: extractContentId_def startsWith_def)
  have r: "isContentReference (JStr (js ''__CHUNKED__:chunk_x''))"
    by (simp add: isContentReference_def startsWith_def)
  show ?thesis
    using t y r by (simp add: retrieveChunkedContent_def resolveChunkedContentInResults_def resolveCell_def
          Let_def extractContentId_def startsWith_def)
qed


subsection \<open>The compression step\<close>


lemma compress_pf0_ascii:
  "compress pf0 (replicate 8193 97) = Inr (b64enc (replicate 8193 97))"
  by (simp add: compress_def pf0_def btoa_def)

lemma processContent_s8:
  "processContent pf0 (replicate 8193 97) = (b64enc (replicate 8193 97), True)"
  by (simp add: processContent_def ENABLE_COMPRESSION_def shouldCompress_def compress_pf0_ascii)

text \<open>
  Claim C8 as stated fails: it says that the compressed form is stored only when it is
  smaller than the original.  The code never compares the two sizes.  On a runtime without
  \<open>CompressionStream\<close>, \<open>compress\<close> returns the base64 text of the content, which is longer
  than the content, and the content of 8193 letters \<open>a\<close> is stored as 10924 characters with
  the compressed flag set.
\<close>

theorem C8_counterexample:
  "processContent pf0 (replicate 8193 97) = (b64enc (replicate 8193 97), True)
   \<and> length (b64enc (replicate 8193 97)) = 10924
   \<and> \<not> length (b64enc (replicate 8193 97)) < length (replicate 8193 (97 :: jschar))
   \<and> (case fst (storeChunkedContent pf0 (js ''ab-c'') (replicate 8193 97) CT_text db0) of
         Inr md \<Rightarrow> compressed md \<and> encoding md = Some (js ''gzip'') | Inl e \<Rightarrow> False)"
proof -
  have "\<exists>md db'. storeChunkedContent pf0 (js ''ab-c'') (replicate 8193 97) CT_text db0 = (Inr md, db')"
    by (rule storeChunkedContent_succeeds) (simp_all add: db0_def)
  then obtain md db' where
    st: "storeChunkedContent pf0 (js ''ab-c'') (replicate 8193 97) CT_text db0 = (Inr md, db')" by blast
  from storeChunkedContent_Inr(1)[OF st] have "compressed md" "encoding md = Some (js ''gzip'')"
    by (simp_all add: processContent_s8)
  then show ?thesis using st by (simp add: processContent_s8 length_b64enc)
qed

text \<open>
  Claim C8, amended.  Compression is attempted only when the content has more than 8192
  code units.  When it is attempted and \<open>compress\<close> returns, the chunks hold its result and
  the metadata says compressed with encoding \<open>gzip\<close>, whatever the size of the result; when
  \<open>compress\<close> throws, or is not attempted, the chunks hold the content itself and the flag is
  unset.
\<close>

theorem C8_compression_choice:
  assumes "storeChunkedContent pf uuid s ctype db = (Inr md, db')"
  shows "\<exists>new p. content_chunks db' =
             Some ((case content_chunks db of None \<Rightarrow> [] | Some rows \<Rightarrow> rows) @ new)
           \<and> concat (map chunk_data new) = p
           \<and> (if 8192 < length s
               then (case compress pf s of
                       Inr r \<Rightarrow> p = r \<and> compressed md \<and> encoding md = Some (js ''gzip'')
                     | Inl e \<Rightarrow> p = s \<and> \<not> compressed md \<and> encoding md = None)
               else p = s \<and> \<not> compressed md \<and> encoding md = None)"
proof -
  define p where "p = fst (processContent pf s)"
  define new where "new = map (\<lambda>i. mkChunk (generateContentId uuid) i
                        (slice p (i * CHUNK_SIZE) (i * CHUNK_SIZE + CHUNK_SIZE)))
                   [0..<chunkCount (length p)]"
  have cd: "map chunk_data new = splitIntoChunks p"
    by (simp add: new_def comp_def mkChunk_def splitIntoChunks_closed)
  have 1: "content_chunks db' = Some ((case content_chunks db of None \<Rightarrow> [] | Some rows \<Rightarrow> rows) @ new)"
    by (subst storeChunkedContent_result[OF assms]) (simp add: new_def p_def)
  have 2: "concat (map chunk_data new) = p"
    by (simp add: cd splitIntoChunks_concat)
  note md = storeChunkedContent_Inr(1)[OF assms]
  have 3: "(if 8192 < length s
               then (case compress pf s of
                       Inr r \<Rightarrow> p = r \<and> compressed md \<and> encoding md = Some (js ''gzip'')
                     | Inl e \<Rightarrow> p = s \<and> \<not> compressed md \<and> encoding md = None)
               else p = s \<and> \<not> compressed md \<and> encoding md = None)"
    by (simp add: md p_def processContent_def ENABLE_COMPRESSION_def shouldCompress_def split: sum.splits)
  from 1 2 3 show ?thesis by blast
qed


lemma split_s8: "splitIntoChunks (b64enc (replicate 8193 97)) = [b64enc (replicate 8193 97)]"
  by (simp add: splitIntoChunks_closed chunkCount_eq CHUNK_SIZE_def slice_def length_b64enc)

lemma store_s8:
  "storeChunkedContent pf0 (js ''ab-c'') (replicate 8193 97) CT_text db0 =
    (Inr \<lparr>contentId = js ''chunk_abc'', totalChunks = 1, originalSize = 8193, contentType = CT_text,
           compressed = True, encoding = Some (js ''gzip'')\<rparr>,
     \<lparr>content_chunks = Some [
        \<lparr>content_id = js ''chunk_abc'', chunk_index = 0, chunk_data = b64enc (replicate 8193 97),
         chunk_size = 10924\<rparr>],
      chunk_metadata = Some [
        \<lparr>row_content_id = js ''chunk_abc'', row_total_chunks = 1, row_original_size = 8193,
         row_content_type = CT_text, row_compressed = 1, row_encoding = Some (js ''gzip'')\<rparr>]\<rparr>)"
  by (simp add: storeChunkedContent_def processContent_s8 split_s8 generateContentId_def
        ensureChunksTable_def db0_def insertChunk_def storeMetadata_def Let_def length_b64enc)

theorem C8_compression_choice_witness:
  "storeChunkedContent pf0 (js ''ab-c'') (replicate 8193 97) CT_text db0 =
    (Inr \<lparr>contentId = js ''chunk_abc'', totalChunks = 1, originalSize = 8193, contentType = CT_text,
           compressed = True, encoding = Some (js ''gzip'')\<rparr>,
     \<lparr>content_chunks = Some [
        \<lparr>content_id = js ''chunk_abc'', chunk_index = 0, chunk_data = b64enc (replicate 8193 97),
         chunk_size = 10924\<rparr>],
      chunk_metadata = Some [
        \<lparr>row_content_id = js ''chunk_abc'', row_total_chunks = 1, row_original_size = 8193,
         row_content_type = CT_text, row_compressed = 1, row_encoding = Some (js ''gzip'')\<rparr>]\<rparr>)
   \<and> 8192 < length (replicate 8193 (97 :: jschar))
   \<and> compress pf0 (replicate 8193 97) = Inr (b64enc (replicate 8193 97))
   \<and> (\<exists>new. [\<lparr>content_id = js ''chunk_abc'', chunk_index = 0, chunk_data = b64enc (replicate 8193 97),
                 chunk_size = 10924\<rparr>] = new
            \<and> concat (map chunk_data new) = b64enc (replicate 8193 97))"
proof -
  note h = store_s8
  from C8_compression_choice[OF h] show ?thesis
    using h by (simp add: compress_pf0_ascii db0_def)
qed


subsection \<open>Storing and retrieving\<close>


lemma concat_replicate_single: "concat (replicate n [a]) = replicate n a"
  by (induction n) simp_all

lemma codePoints_ascii: "codePoints (replicate n 97) = replicate n 97"
proof (induction n rule: less_induct)
  case (less n)
  show ?case
  proof (cases n)
    case 0
    then show ?thesis by simp
  next
    case (Suc m)
    note n = this
    show ?thesis
    proof (cases m)
      case 0
      then show ?thesis using n by (simp add: isHighSurrogate_def isLowSurrogate_def)
    next
      case (Suc k)
      have "codePoints (replicate m 97) = replicate m 97" using less n by simp
      then show ?thesis using n Suc by (simp add: isHighSurrogate_def isLowSurrogate_def)
    qed
  qed
qed

lemma codePoints_bomText: "codePoints bomText = 0xFEFF # replicate 32768 97"
proof -
  have "replicate 32768 (97 :: jschar) = 97 # replicate 32767 97"
    by (simp add: replicate_Suc[symmetric] del: replicate_Suc)
  then have "codePoints bomText = 0xFEFF # codePoints (replicate 32768 97)"
    unfolding bomText_def by (simp add: isHighSurrogate_def isLowSurrogate_def)
  then show ?thesis by (simp add: codePoints_ascii)
qed

lemma encode_bomText: "TextEncoder_encode bomText = [0xEF, 0xBB, 0xBF] @ replicate 32768 97"
  by (simp add: TextEncoder_encode_def codePoints_bomText utf8Bytes_def concat_replicate_single)

lemma utf8Decode_ascii: "utf8Decode Idle (replicate n 97) = replicate n 97"
  by (induction n) simp_all

lemma decode_bom_ascii: "TextDecoder_decode ([0xEF, 0xBB, 0xBF] @ replicate n 97) = replicate n 97"
  by (simp add: TextDecoder_decode_def stripBOM_def utf8Decode_ascii utf16Units_def concat_replicate_single)

lemma decode_encode_bomText: "TextDecoder_decode (TextEncoder_encode bomText) = replicate 32768 97"
  by (simp only: encode_bomText decode_bom_ascii)

lemma retrieve_compressed:
  assumes c: "CompressionStream pf = Some gz"
      and d: "DecompressionStream pf = Some gunz"
      and lossless: "gunz (gz (TextEncoder_encode s)) = Some (TextEncoder_encode s)"
      and fits: "length (gz (TextEncoder_encode s)) \<le> argumentLimit pf"
      and big: "8192 < length s"
      and fresh1: "\<forall>r \<in> set (case content_chunks db of None \<Rightarrow> [] | Some rows \<Rightarrow> rows). content_id r \<noteq> generateContentId uuid"
      and fresh2: "\<forall>r \<in> set (case chunk_metadata db of None \<Rightarrow> [] | Some rows \<Rightarrow> rows). row_content_id r \<noteq> generateContentId uuid"
  shows "\<exists>md db'. storeChunkedContent pf uuid s ctype db = (Inr md, db') \<and>
           retrieveChunkedContent pf (extractContentId (createContentReference md)) db' =
             Inr (Some (TextDecoder_decode (TextEncoder_encode s)))"
proof -
  from storeChunkedContent_succeeds[OF fresh1 fresh2] obtain md db' where
    st: "storeChunkedContent pf uuid s ctype db = (Inr md, db')" by blast
  from compress_decompress_gzip[OF c d lossless fits] obtain r where
    r: "compress pf s = Inr r" "decompress pf r = Inr (TextDecoder_decode (TextEncoder_encode s))"
    by blast
  have pc: "processContent pf s = (r, True)"
    using big r(1) by (simp add: processContent_def ENABLE_COMPRESSION_def shouldCompress_def)
  note md = storeChunkedContent_Inr(1)[OF st]
  have cid: "extractContentId (createContentReference md) = generateContentId uuid"
    by (simp add: extract_reference md)
  have "retrieveTry pf (generateContentId uuid) db' = Inr (Some (TextDecoder_decode (TextEncoder_encode s)))"
    unfolding retrieveTry_after_store[OF st fresh1 fresh2] by (simp add: md pc r(2))
  then show ?thesis using st by (simp add: retrieveChunkedContent_def cid)
qed

text \<open>
  Claim C2.  The claim is that storing any text longer than 32 KiB and retrieving it through
  the returned reference yields the text unchanged.  The compressed path encodes the text
  with \<open>TextEncoder\<close> and, on retrieval, decodes it with \<open>new TextDecoder()\<close>, which drops a
  leading byte order mark.  For the text \<open>bomText\<close> (U+FEFF followed by 32768 letters \<open>a\<close>),
  on every runtime whose gzip streams are lossless on it and whose argument limit admits the
  compressed bytes, and for a content id not yet in the store, the call succeeds and
  retrieval returns the 32768 letters without the first code unit.
\<close>

theorem C2_leading_bom_is_lost:
  assumes "CompressionStream pf = Some gz"
      and "DecompressionStream pf = Some gunz"
      and "gunz (gz (TextEncoder_encode bomText)) = Some (TextEncoder_encode bomText)"
      and "length (gz (TextEncoder_encode bomText)) \<le> argumentLimit pf"
      and "\<forall>r \<in> set (case content_chunks db of None \<Rightarrow> [] | Some rows \<Rightarrow> rows). content_id r \<noteq> generateContentId uuid"
      and "\<forall>r \<in> set (case chunk_metadata db of None \<Rightarrow> [] | Some rows \<Rightarrow> rows). row_content_id r \<noteq> generateContentId uuid"
  shows "CHUNK_SIZE_THRESHOLD < length bomText \<and>
         (\<exists>md db'. storeChunkedContent pf uuid bomText ctype db = (Inr md, db') \<and>
           retrieveChunkedContent pf (extractContentId (createContentReference md)) db' =
             Inr (Some (replicate 32768 97))) \<and>
         replicate 32768 97 \<noteq> bomText"
proof -
  have big: "8192 < length bomText" by (simp add: bomText_def)
  have ne: "replicate 32768 97 \<noteq> bomText"
  proof
    assume "replicate 32768 97 = bomText"
    then have "length (replicate 32768 (97 :: jschar)) = length bomText" by (rule arg_cong)
    then show False by (simp add: bomText_def)
  qed
  have th: "CHUNK_SIZE_THRESHOLD < length bomText" by (simp add: bomText_def CHUNK_SIZE_THRESHOLD_def)
  from retrieve_compressed[OF assms(1-4) big assms(5,6), of ctype] th ne show ?thesis
    by (simp only: decode_encode_bomText) blast
qed

theorem C2_leading_bom_is_lost_witness:
  "CompressionStream pf1 = Some gzToy
   \<and> DecompressionStream pf1 = Some gunzToy
   \<and> gunzToy (gzToy (TextEncoder_encode bomText)) = Some (TextEncoder_encode bomText)
   \<and> length (gzToy (TextEncoder_encode bomText)) \<le> argumentLimit pf1
   \<and> content_chunks db0 = None
   \<and> chunk_metadata db0 = None
   \<and> CHUNK_SIZE_THRESHOLD < length bomText
   \<and> (\<exists>md db'. storeChunkedContent pf1 (js ''ab-c'') bomText CT_text db0 = (Inr md, db') \<and>
           retrieveChunkedContent pf1 (extractContentId (createContentReference md)) db' =
             Inr (Some (replicate 32768 97)))
   \<and> replicate 32768 97 \<noteq> bomText"
proof -
  have 1: "CompressionStream pf1 = Some gzToy" by (simp add: pf1_def)
  have 2: "DecompressionStream pf1 = Some gunzToy" by (simp add: pf1_def)
  have 3: "gunzToy (gzToy (TextEncoder_encode bomText)) = Some (TextEncoder_encode bomText)"
    by (simp add: gzToy_def)
  have 4: "length (gzToy (TextEncoder_encode bomText)) \<le> argumentLimit pf1"
    by (simp add: gzToy_def encode_bomText pf1_def)
  have 5: "\<forall>r \<in> set (case content_chunks db0 of None \<Rightarrow> [] | Some rows \<Rightarrow> rows). content_id r \<noteq> generateContentId (js ''ab-c'')"
    by (simp add: db0_def)
  have 6: "\<forall>r \<in> set (case chunk_metadata db0 of None \<Rightarrow> [] | Some rows \<Rightarrow> rows). row_content_id r \<noteq> generateContentId (js ''ab-c'')"
    by (simp add: db0_def)
  have 7: "content_chunks db0 = None" "chunk_metadata db0 = None" by (simp_all add: db0_def)
  from C2_leading_bom_is_lost[OF 1 2 3 4 5 6, of CT_text] 1 2 3 4 7 show ?thesis by blast
qed


section \<open>Properties of the type resolver\<close>


lemma resolveColumnTypes_lookup:
  "distinct (map fst columnTypes) \<Longrightarrow> (c, types) \<in> set columnTypes \<Longrightarrow>
   map_of (resolveColumnTypes columnTypes) c = Some (resolveTypes types)"
  by (induction columnTypes) (auto simp: resolveColumnTypes_def rev_image_eqI)

lemma resolveTypes_many:
  "1 < length types \<Longrightarrow>
   resolveTypes types = (if js ''TEXT'' \<in> set types then js ''TEXT''
                         else if js ''REAL'' \<in> set types then js ''REAL'' else js ''INTEGER'')"
  unfolding resolveTypes_def by (cases types rule: list.exhaust) (auto split: list.splits)

lemma addColumnType_keys: "fst ` set (addColumnType cts c t) = insert c (fst ` set cts)"
  by (induction cts c t rule: addColumnType.induct) auto

lemma addColumnType_distinct_keys:
  "distinct (map fst cts) \<Longrightarrow> distinct (map fst (addColumnType cts c t))"
proof (induction cts c t rule: addColumnType.induct)
  case (1 column ty)
  then show ?case by simp
next
  case (2 c tys rest column ty)
  show ?case
  proof (cases "c = column")
    case True
    then show ?thesis using 2 by simp
  next
    case False
    have "c \<notin> fst ` set (addColumnType rest column ty)"
      using 2(2) False by (simp add: addColumnType_keys)
    then show ?thesis using 2 False by simp
  qed
qed

text \<open>
  Claim C5.  \<open>getSQLiteType\<close> maps null and undefined to TEXT, a boolean to INTEGER, an
  integer number to INTEGER, any other number to REAL, a string to TEXT and anything else
  (arrays, objects, functions) to TEXT; and \<open>resolveColumnTypes\<close> gives a column whose set of
  observed types has more than one element the type TEXT if TEXT is in the set, else REAL if
  REAL is in the set, else INTEGER.
\<close>

theorem C5_column_type_resolution:
  "getSQLiteType JNull = js ''TEXT''
   \<and> getSQLiteType JUndefined = js ''TEXT''
   \<and> getSQLiteType (JBool b) = js ''INTEGER''
   \<and> (Number_isInteger n \<longrightarrow> getSQLiteType (JNum n) = js ''INTEGER'')
   \<and> (\<not> Number_isInteger n \<longrightarrow> getSQLiteType (JNum n) = js ''REAL'')
   \<and> getSQLiteType (JStr s) = js ''TEXT''
   \<and> getSQLiteType (JArr xs) = js ''TEXT''
   \<and> getSQLiteType (JObj a fs) = js ''TEXT''
   \<and> getSQLiteType (JFunction f) = js ''TEXT''
   \<and> (distinct (map fst columnTypes) \<and> (c, types) \<in> set columnTypes \<and> 1 < length types \<longrightarrow>
        map_of (resolveColumnTypes columnTypes) c =
          Some (if js ''TEXT'' \<in> set types then js ''TEXT''
                else if js ''REAL'' \<in> set types then js ''REAL'' else js ''INTEGER''))"
  using resolveColumnTypes_lookup[of columnTypes c types] resolveTypes_many[of types]
  by (simp add: getSQLiteType_def)

lemma cts5_eq: "cts5 = [(js ''v'', [js ''INTEGER'', js ''REAL'', js ''TEXT''])]"
  by (simp add: cts5_def getSQLiteType_def Number_isInteger_def setAdd_def)

theorem C5_column_type_resolution_witness:
  "Number_isInteger (Num 1) \<and> getSQLiteType (JNum (Num 1)) = js ''INTEGER''
   \<and> \<not> Number_isInteger (Num 1.5) \<and> getSQLiteType (JNum (Num 1.5)) = js ''REAL''
   \<and> \<not> Number_isInteger NaN \<and> getSQLiteType (JNum NaN) = js ''REAL''
   \<and> distinct (map fst cts5) \<and> (js ''v'', [js ''INTEGER'', js ''REAL'', js ''TEXT'']) \<in> set cts5
   \<and> 1 < length [js ''INTEGER'', js ''REAL'', js ''TEXT'']
   \<and> map_of (resolveColumnTypes cts5) (js ''v'') = Some (js ''TEXT'')
   \<and> map_of (resolveColumnTypes [(js ''x'', [js ''INTEGER'', js ''REAL''])]) (js ''x'') = Some (js ''REAL'')"
proof -
  have a: "Number_isInteger (Num 1)" "\<not> Number_isInteger (Num 1.5)" "\<not> Number_isInteger NaN"
    by (simp_all add: Number_isInteger_def)
  have b: "distinct (map fst cts5)" "(js ''v'', [js ''INTEGER'', js ''REAL'', js ''TEXT'']) \<in> set cts5"
    "1 < length [js ''INTEGER'', js ''REAL'', js ''TEXT'']"
    by (simp_all add: cts5_eq)
  have c: "distinct (map fst [(js ''x'', [js ''INTEGER'', js ''REAL''])])"
    "(js ''x'', [js ''INTEGER'', js ''REAL'']) \<in> set [(js ''x'', [js ''INTEGER'', js ''REAL''])]"
    "1 < length [js ''INTEGER'', js ''REAL'']"
    by simp_all
  from C5_column_type_resolution[where n = "Num 1" and columnTypes = cts5 and c = "js ''v''"
          and types = "[js ''INTEGER'', js ''REAL'', js ''TEXT'']"]
       C5_column_type_resolution[where n = "Num 1.5" and columnTypes = "[(js ''x'', [js ''INTEGER'', js ''REAL''])]"
          and c = "js ''x''" and types = "[js ''INTEGER'', js ''REAL'']"]
       C5_column_type_resolution[where n = NaN]
       a b c
  show ?thesis by simp
qed

end
